theory Spec2Isabelle
  imports Complex_Main "HOL-Library.AList"
begin

section \<open>The setting store (SettingManager.py)\<close>

text \<open>
  \<open>SettingManager.setting_dict\<close> is a Python dict, which keeps insertion order; it is an
  association list here, written with \<open>AList.update\<close> (replace in place, or append a new
  key at the end). The settings file is the text that has been written to it.
\<close>

record setting_manager =
  setting_dict :: "(string \<times> string) list"
  setting_file :: string

definition GetSetting :: "setting_manager \<Rightarrow> string \<Rightarrow> string option \<times> setting_manager" where
  "GetSetting sm key =
     (let sm1 = (if map_of (setting_dict sm) key = None
                 then sm\<lparr>setting_file := setting_file sm @ [CHR 0x0A] @ key @ ''='',
                         setting_dict := AList.update key '''' (setting_dict sm)\<rparr>
                 else sm)
      in (case map_of (setting_dict sm1) key of
            None \<Rightarrow> None
          | Some v \<Rightarrow> if v = '''' then None else Some v,
          sm1))"

definition render_settings :: "(string \<times> string) list \<Rightarrow> string" where
  "render_settings kvs = concat (map (\<lambda>(k, v). k @ ''='' @ v @ [CHR 0x0A]) kvs)"

definition SetSetting :: "setting_manager \<Rightarrow> string \<Rightarrow> string \<Rightarrow> setting_manager" where
  "SetSetting sm key val =
     (let d = AList.update key val (setting_dict sm)
      in sm\<lparr>setting_dict := d, setting_file := render_settings d\<rparr>)"

section \<open>Players, host calls and the durable table\<close>

text \<open>
  What the plugin reads from a host player object: the optional \<open>xuid\<close> and \<open>uuid\<close>
  attributes, the name, the optional \<open>health\<close> attribute, and whether the host's
  \<open>send_tip\<close> and \<open>send_message\<close> calls raise for this player.
\<close>

record player =
  xuid_attr :: "string option"
  uuid_attr :: "string option"
  player_name :: string
  health :: "real option"
  tip_raises :: bool
  message_raises :: bool

fun truthy :: "string option \<Rightarrow> bool" where
  "truthy None = False"
| "truthy (Some s) = (s \<noteq> [])"

definition get_player_xuid :: "player \<Rightarrow> string" where
  "get_player_xuid p =
     (if truthy (xuid_attr p) then the (xuid_attr p)
      else if truthy (uuid_attr p) then the (uuid_attr p)
      else player_name p)"

datatype host_call =
    Send_tip string int
  | Send_damage_tip string
  | Send_message string
  | Dispatch_effect string string int int
  | Log string string

record thirst_row =
  row_xuid :: string
  row_player_name :: string
  row_thirst :: real
  row_updated_at :: string

text \<open>
  Modelled from the spec: the durable record store (DatabaseManager, not among the
  sources). Keyed lookup returns the first row with the identity or nothing, insert adds
  a row, update rewrites the named fields of every row the key selects.
\<close>

definition query_one :: "thirst_row list \<Rightarrow> string \<Rightarrow> thirst_row option" where
  "query_one rows x = find (\<lambda>r. row_xuid r = x) rows"

definition insert_row :: "thirst_row list \<Rightarrow> thirst_row \<Rightarrow> thirst_row list" where
  "insert_row rows r = rows @ [r]"

definition update_rows :: "thirst_row list \<Rightarrow> string \<Rightarrow> string \<Rightarrow> real \<Rightarrow> string \<Rightarrow> thirst_row list" where
  "update_rows rows x nm lvl ts =
     map (\<lambda>r. if row_xuid r = x
              then r\<lparr>row_player_name := nm, row_thirst := lvl, row_updated_at := ts\<rparr>
              else r) rows"

definition records_for :: "thirst_row list \<Rightarrow> string \<Rightarrow> thirst_row list" where
  "records_for rows x = filter (\<lambda>r. row_xuid r = x) rows"

section \<open>The plugin state (arc\_realistic\_survival.py)\<close>

record plugin =
  player_xuid_to_thirst :: "string \<rightharpoonup> real"
  player_moving_flags :: "string \<rightharpoonup> bool"
  thirst_decay_per_second :: real
  thirst_moving_multiplier :: real
  thirst_initial :: real
  thirst_damage_timer :: int
  settings :: setting_manager
  player_thirst :: "thirst_row list"
  calls :: "host_call list"

text \<open>The state \<open>__init__\<close> builds, over a given setting store and table.\<close>

definition init_plugin :: "setting_manager \<Rightarrow> thirst_row list \<Rightarrow> plugin" where
  "init_plugin sm rows =
     \<lparr>player_xuid_to_thirst = Map.empty, player_moving_flags = Map.empty,
      thirst_decay_per_second = 1 / 10, thirst_moving_multiplier = 2,
      thirst_initial = 100, thirst_damage_timer = 0,
      settings = sm, player_thirst = rows, calls = []\<rparr>"

definition safe_log :: "plugin \<Rightarrow> string \<Rightarrow> string \<Rightarrow> plugin" where
  "safe_log st level msg = st\<lparr>calls := calls st @ [Log level msg]\<rparr>"

definition clamp_thirst :: "real \<Rightarrow> real" where
  "clamp_thirst v = max 0 (min 100 v)"

text \<open>\<open>self.player_xuid_to_thirst.get(xuid, self.thirst_initial)\<close>\<close>

definition thirst_of :: "plugin \<Rightarrow> string \<Rightarrow> real" where
  "thirst_of st x = (case player_xuid_to_thirst st x of None \<Rightarrow> thirst_initial st | Some v \<Rightarrow> v)"

text \<open>Python's \<open>int(x)\<close> on a float truncates towards zero.\<close>

definition py_int :: "real \<Rightarrow> int" where
  "py_int v = (if 0 \<le> v then \<lfloor>v\<rfloor> else \<lceil>v\<rceil>)"

subsection \<open>Loading the three settings\<close>

datatype exn = ValueError | HostError

text \<open>
  \<open>float(val)\<close> is a parameter: \<open>parse\<close> gives the number a text denotes, or nothing
  where Python raises ValueError. Levels and rates are real numbers here.
\<close>

text \<open>
  One block of \<open>_load_thirst_settings\<close> per setting, each with the test
  \<open>val is None or val == ""\<close> of the source. Each returns the exception that leaves the
  \<open>try\<close> body, if any, and the state reached; what \<open>GetSetting\<close> wrote before the
  exception stays written.
\<close>

definition load_decay :: "(string \<Rightarrow> real option) \<Rightarrow> plugin \<Rightarrow> exn option \<times> plugin" where
  "load_decay parse st =
     (let (val, sm) = GetSetting (settings st) ''thirst_decay_per_second'';
          st1 = st\<lparr>settings := sm\<rparr>
      in if val = None \<or> val = Some ''''
         then (None, st1\<lparr>settings := SetSetting sm ''thirst_decay_per_second'' ''0.1'',
                          thirst_decay_per_second := 1 / 10\<rparr>)
         else (case parse (the val) of
                 None \<Rightarrow> (Some ValueError, st1)
               | Some x \<Rightarrow> (None, st1\<lparr>thirst_decay_per_second := max 0 x\<rparr>)))"

definition load_multiplier :: "(string \<Rightarrow> real option) \<Rightarrow> plugin \<Rightarrow> exn option \<times> plugin" where
  "load_multiplier parse st =
     (let (val, sm) = GetSetting (settings st) ''thirst_moving_multiplier'';
          st1 = st\<lparr>settings := sm\<rparr>
      in if val = None \<or> val = Some ''''
         then (None, st1\<lparr>settings := SetSetting sm ''thirst_moving_multiplier'' ''2.0'',
                          thirst_moving_multiplier := 2\<rparr>)
         else (case parse (the val) of
                 None \<Rightarrow> (Some ValueError, st1)
               | Some x \<Rightarrow> (None, st1\<lparr>thirst_moving_multiplier := max 1 x\<rparr>)))"

definition load_initial :: "(string \<Rightarrow> real option) \<Rightarrow> plugin \<Rightarrow> exn option \<times> plugin" where
  "load_initial parse st =
     (let (val, sm) = GetSetting (settings st) ''thirst_initial'';
          st1 = st\<lparr>settings := sm\<rparr>
      in if val = None \<or> val = Some ''''
         then (None, st1\<lparr>settings := SetSetting sm ''thirst_initial'' ''100.0'',
                          thirst_initial := 100\<rparr>)
         else (case parse (the val) of
                 None \<Rightarrow> (Some ValueError, st1)
               | Some x \<Rightarrow> (None, st1\<lparr>thirst_initial := x\<rparr>)))"

definition load_thirst_settings :: "(string \<Rightarrow> real option) \<Rightarrow> plugin \<Rightarrow> plugin" where
  "load_thirst_settings parse st =
     (case load_decay parse st of
        (Some e, st1) \<Rightarrow> safe_log st1 ''error'' ''load thirst settings error''
      | (None, st1) \<Rightarrow>
          (case load_multiplier parse st1 of
             (Some e, st2) \<Rightarrow> safe_log st2 ''error'' ''load thirst settings error''
           | (None, st2) \<Rightarrow>
               (case load_initial parse st2 of
                  (Some e, st3) \<Rightarrow> safe_log st3 ''error'' ''load thirst settings error''
                | (None, st3) \<Rightarrow> st3)))"

text \<open>
  What the store holds for a key, whether that counts as missing (no entry, or an empty
  text: \<open>GetSetting\<close> gives nothing for both), and whether reading the key as a number
  goes through (missing counts: the default is taken without parsing).
\<close>

definition stored :: "setting_manager \<Rightarrow> string \<Rightarrow> string option" where
  "stored sm key = map_of (setting_dict sm) key"

definition blank :: "setting_manager \<Rightarrow> string \<Rightarrow> bool" where
  "blank sm key \<longleftrightarrow> stored sm key = None \<or> stored sm key = Some ''''"

definition parses :: "(string \<Rightarrow> real option) \<Rightarrow> setting_manager \<Rightarrow> string \<Rightarrow> bool" where
  "parses parse sm key \<longleftrightarrow>
     (case stored sm key of None \<Rightarrow> True | Some s \<Rightarrow> s = '''' \<or> parse s \<noteq> None)"

subsection \<open>Load on attach, save\<close>

definition load_player_thirst :: "plugin \<Rightarrow> player \<Rightarrow> string \<Rightarrow> real \<times> plugin" where
  "load_player_thirst st p now =
     (let xuid = get_player_xuid p;
          st0 = safe_log st ''info'' ''Loading thirst'';
          st1 = (case query_one (player_thirst st0) xuid of
                   None \<Rightarrow>
                     (let sa = st0\<lparr>player_xuid_to_thirst :=
                                     (player_xuid_to_thirst st0)(xuid \<mapsto> thirst_initial st0)\<rparr>;
                          sb = safe_log sa ''info'' ''New player''
                      in sb\<lparr>player_thirst := insert_row (player_thirst sb)
                             \<lparr>row_xuid = xuid, row_player_name = player_name p,
                              row_thirst = thirst_initial sb, row_updated_at = now\<rparr>\<rparr>)
                 | Some row \<Rightarrow>
                     safe_log (st0\<lparr>player_xuid_to_thirst :=
                                     (player_xuid_to_thirst st0)(xuid \<mapsto> row_thirst row)\<rparr>)
                       ''info'' ''Loaded existing thirst'')
      in (the (player_xuid_to_thirst st1 xuid), st1))"

definition persist_player_thirst :: "plugin \<Rightarrow> player \<Rightarrow> string \<Rightarrow> plugin" where
  "persist_player_thirst st p now =
     (let xuid = get_player_xuid p;
          thirst = thirst_of st xuid
      in case query_one (player_thirst st) xuid of
           None \<Rightarrow> st\<lparr>player_thirst := insert_row (player_thirst st)
                       \<lparr>row_xuid = xuid, row_player_name = player_name p,
                        row_thirst = thirst, row_updated_at = now\<rparr>\<rparr>
         | Some _ \<Rightarrow> st\<lparr>player_thirst :=
                        update_rows (player_thirst st) xuid (player_name p) thirst now\<rparr>)"

subsection \<open>Applying a delta\<close>

text \<open>
  The level is stored before the tip is sent, so the write stays when \<open>send_tip\<close> raises.
\<close>

definition apply_thirst_delta :: "plugin \<Rightarrow> player \<Rightarrow> real \<Rightarrow> (exn + real) \<times> plugin" where
  "apply_thirst_delta st p delta =
     (let xuid = get_player_xuid p;
          current = thirst_of st xuid;
          new_val = clamp_thirst (current + delta);
          st1 = st\<lparr>player_xuid_to_thirst := (player_xuid_to_thirst st)(xuid \<mapsto> new_val)\<rparr>;
          actual_change = \<lfloor>new_val\<rfloor> - \<lfloor>current\<rfloor>
      in if \<bar>actual_change\<bar> > 0
         then (if tip_raises p then (Inl HostError, st1)
               else (Inr new_val, st1\<lparr>calls := calls st1 @ [Send_tip (player_name p) (py_int new_val)]\<rparr>))
         else (Inr new_val, st1))"

subsection \<open>The damage callback\<close>

text \<open>\<open>str.lower\<close> on the ASCII letters, which is all an effect name holds.\<close>

definition lower_char :: "char \<Rightarrow> char" where
  "lower_char c = (let n = (of_char c :: nat) in if 65 \<le> n \<and> n \<le> 90 then char_of (n + 32) else c)"

definition lower :: "string \<Rightarrow> string" where
  "lower s = map lower_char s"

text \<open>
  The command \<open>effect <player> <effect> <time> <amplifier>\<close> handed to the server is
  recorded by its four parts; the dispatch itself is taken to succeed.
\<close>

definition apply_buff_to_player :: "plugin \<Rightarrow> player \<Rightarrow> string \<Rightarrow> int \<Rightarrow> int \<Rightarrow> plugin" where
  "apply_buff_to_player st p buff_name duration amplifier =
     st\<lparr>calls := calls st @ [Dispatch_effect (player_name p) (lower buff_name) duration amplifier]\<rparr>"

definition apply_thirst_damage :: "plugin \<Rightarrow> player \<Rightarrow> plugin" where
  "apply_thirst_damage st p =
     (case health p of
        None \<Rightarrow> st
      | Some h \<Rightarrow>
          if h \<le> 0 then st
          else if thirst_of st (get_player_xuid p) > 0 then st
          else
            (let st1 = apply_buff_to_player st p ''instant_damage'' 1 1
             in if message_raises p then safe_log st1 ''error'' ''apply thirst damage error''
                else
                  (let st2 = st1\<lparr>calls := calls st1 @ [Send_message (player_name p)]\<rparr>
                   in if tip_raises p then safe_log st2 ''error'' ''apply thirst damage error''
                      else st2\<lparr>calls := calls st2 @ [Send_damage_tip (player_name p)]\<rparr>)))"

subsection \<open>The tick\<close>

definition tick_player :: "plugin \<Rightarrow> player \<Rightarrow> string \<Rightarrow> exn option \<times> plugin" where
  "tick_player st p now =
     (let base_decay = thirst_decay_per_second st;
          xuid = get_player_xuid p;
          moving_flag = (case player_moving_flags st xuid of None \<Rightarrow> False | Some b \<Rightarrow> b);
          decay = (if \<not> moving_flag then base_decay
                   else base_decay * thirst_moving_multiplier st);
          (r, st1) = (if decay > 0 then apply_thirst_delta st p (- decay) else (Inr 0, st))
      in case r of
           Inl e \<Rightarrow> (Some e, st1)
         | Inr _ \<Rightarrow>
             (let st2 = (if thirst_damage_timer st1 \<ge> 10
                         then (if thirst_of st1 xuid \<le> 0 then apply_thirst_damage st1 p else st1)
                         else st1);
                  st3 = st2\<lparr>player_moving_flags := (player_moving_flags st2)(xuid := None)\<rparr>
              in (None, persist_player_thirst st3 p now)))"

fun tick_players :: "plugin \<Rightarrow> player list \<Rightarrow> string \<Rightarrow> exn option \<times> plugin" where
  "tick_players st [] now = (None, st)"
| "tick_players st (p # ps) now =
     (case tick_player st p now of
        (Some e, st1) \<Rightarrow> (Some e, st1)
      | (None, st1) \<Rightarrow> tick_players st1 ps now)"

definition tick :: "plugin \<Rightarrow> player list \<Rightarrow> string \<Rightarrow> plugin" where
  "tick st online_players now =
     (let st0 = st\<lparr>thirst_damage_timer := thirst_damage_timer st + 1\<rparr>
      in case tick_players st0 online_players now of
           (Some e, st1) \<Rightarrow> safe_log st1 ''error'' ''thirst timer error''
         | (None, st1) \<Rightarrow>
             (if thirst_damage_timer st1 \<ge> 10 then st1\<lparr>thirst_damage_timer := 0\<rparr> else st1))"

subsection \<open>Event handlers\<close>

definition on_player_join :: "plugin \<Rightarrow> player \<Rightarrow> string \<Rightarrow> plugin" where
  "on_player_join st p now = snd (load_player_thirst st p now)"

definition on_player_quit :: "plugin \<Rightarrow> player \<Rightarrow> string \<Rightarrow> plugin" where
  "on_player_quit st p now = persist_player_thirst st p now"

definition on_player_move :: "plugin \<Rightarrow> player \<Rightarrow> plugin" where
  "on_player_move st p =
     st\<lparr>player_moving_flags := (player_moving_flags st)(get_player_xuid p \<mapsto> True)\<rparr>"

definition on_actor_death :: "plugin \<Rightarrow> player \<Rightarrow> string \<Rightarrow> plugin" where
  "on_actor_death st p now =
     (let xuid = get_player_xuid p;
          st1 = st\<lparr>player_xuid_to_thirst := (player_xuid_to_thirst st)(xuid \<mapsto> thirst_initial st)\<rparr>;
          st2 = persist_player_thirst st1 p now
      in safe_log st2 ''info'' ''death reset'')"

text \<open>
  Consumption. The handler's input is what the lookup in \<open>thirst_items\<close> gave for the
  consumed item: nothing, or the item's \<open>thirst_delta\<close> and its \<open>buffs\<close> column. The column
  is empty, or a list of (name, duration, amplifier) that decodes, or one whose decoding
  or reading raises after the listed buffs were applied.
\<close>

datatype buffs_field =
    Buffs_empty
  | Buffs_list "(string \<times> int \<times> int) list"
  | Buffs_invalid "(string \<times> int \<times> int) list"

definition apply_buffs :: "plugin \<Rightarrow> player \<Rightarrow> (string \<times> int \<times> int) list \<Rightarrow> plugin" where
  "apply_buffs st p bs = fold (\<lambda>(n, d, a) s. apply_buff_to_player s p n d a) bs st"

definition on_player_item_consume ::
  "plugin \<Rightarrow> player \<Rightarrow> (real \<times> buffs_field) option \<Rightarrow> string \<Rightarrow> plugin" where
  "on_player_item_consume st p item_config now =
     (case item_config of
        None \<Rightarrow> st
      | Some (thirst_delta, bf) \<Rightarrow>
          (case apply_thirst_delta st p thirst_delta of
             (Inl e, st1) \<Rightarrow> safe_log st1 ''error'' ''consume event error''
           | (Inr _, st1) \<Rightarrow>
               (let st2 = (case bf of
                             Buffs_empty \<Rightarrow> st1
                           | Buffs_list bs \<Rightarrow> apply_buffs st1 p bs
                           | Buffs_invalid bs \<Rightarrow>
                               safe_log (apply_buffs st1 p bs) ''error'' ''apply buffs error'')
                in persist_player_thirst st2 p now)))"

subsection \<open>Sequences of events\<close>

datatype event =
    Tick "player list" string
  | Consume player "(real \<times> buffs_field) option" string
  | Death player string
  | Join player string
  | Quit player string
  | Move player

fun apply_event :: "plugin \<Rightarrow> event \<Rightarrow> plugin" where
  "apply_event st (Tick ps now) = tick st ps now"
| "apply_event st (Consume p cfg now) = on_player_item_consume st p cfg now"
| "apply_event st (Death p now) = on_actor_death st p now"
| "apply_event st (Join p now) = on_player_join st p now"
| "apply_event st (Quit p now) = on_player_quit st p now"
| "apply_event st (Move p) = on_player_move st p"

definition run :: "plugin \<Rightarrow> event list \<Rightarrow> plugin" where
  "run st evs = foldl apply_event st evs"


subsection \<open>Observations\<close>

text \<open>Every level a reader can see, in memory or in the table, lies in \<open>[0, 100]\<close>.\<close>

definition levels_in_range :: "plugin \<Rightarrow> bool" where
  "levels_in_range st \<longleftrightarrow>
     0 \<le> thirst_initial st \<and> thirst_initial st \<le> 100
     \<and> (\<forall>x. 0 \<le> thirst_of st x \<and> thirst_of st x \<le> 100)
     \<and> (\<forall>r \<in> set (player_thirst st). 0 \<le> row_thirst r \<and> row_thirst r \<le> 100)"

text \<open>The number of damage commands dispatched for the player of a given name.\<close>

definition damage_calls :: "string \<Rightarrow> host_call list \<Rightarrow> nat" where
  "damage_calls n cs = length (filter (\<lambda>c. c = Dispatch_effect n (lower ''instant_damage'') 1 1) cs)"

definition no_tip_raises :: "player list \<Rightarrow> bool" where
  "no_tip_raises ps = list_all (\<lambda>q. \<not> tip_raises q) ps"

text \<open>
  The damage callback acts on a player that has a health attribute, above zero.
\<close>

definition alive :: "player \<Rightarrow> bool" where
  "alive p = (case health p of None \<Rightarrow> False | Some h \<Rightarrow> 0 < h)"



text \<open>The moving flag as the tick reads it: \<open>player_moving_flags.get(xuid, False)\<close>.\<close>

definition moving_flag_of :: "plugin \<Rightarrow> string \<Rightarrow> bool" where
  "moving_flag_of st x = (case player_moving_flags st x of None \<Rightarrow> False | Some b \<Rightarrow> b)"

text \<open>The decay the tick computes for an identity, from the configuration and its flag.\<close>

definition decay_for :: "plugin \<Rightarrow> string \<Rightarrow> real" where
  "decay_for st x =
     (if \<not> moving_flag_of st x then thirst_decay_per_second st
      else thirst_decay_per_second st * thirst_moving_multiplier st)"

text \<open>
  The stages of one player's step in the tick: the state once the decay has been applied,
  whether the tip sent with the decay raises, and the state once the damage check has run.
\<close>

definition after_decay :: "plugin \<Rightarrow> player \<Rightarrow> plugin" where
  "after_decay st p =
     (if decay_for st (get_player_xuid p) > 0
      then snd (apply_thirst_delta st p (- decay_for st (get_player_xuid p))) else st)"

definition decay_raises :: "plugin \<Rightarrow> player \<Rightarrow> bool" where
  "decay_raises st p \<longleftrightarrow>
     decay_for st (get_player_xuid p) > 0 \<and> tip_raises p
     \<and> \<lfloor>thirst_of (after_decay st p) (get_player_xuid p)\<rfloor> \<noteq> \<lfloor>thirst_of st (get_player_xuid p)\<rfloor>"

definition after_damage :: "plugin \<Rightarrow> player \<Rightarrow> plugin" where
  "after_damage st p =
     (if thirst_damage_timer st \<ge> 10 \<and> thirst_of (after_decay st p) (get_player_xuid p) \<le> 0
      then apply_thirst_damage (after_decay st p) p else after_decay st p)"

section \<open>The fallback timer (\_ArcTimer)\<close>

text \<open>
  \<open>_ArcTimer\<close> runs on two threads: the thread of the armed \<open>threading.Timer\<close>, which
  executes \<open>_run\<close> (the target, then \<open>_schedule\<close>), and the caller of \<open>cancel\<close>. Each
  statement that reads or writes the shared fields is one step; \<open>run_pc\<close> and
  \<open>cancel_pc\<close> say where each thread stands. \<open>timers\<close> holds every Timer object created,
  in order; \<open>timer\<close> is the field \<open>_timer\<close>, an index into it. A Timer that is cancelled
  before it expires never calls its function; cancelling one that has expired does
  nothing.
\<close>

datatype timer_state = Armed | Fired | Cancelled

datatype run_pc = Idle | In_target | At_stop_check | At_arm

datatype cancel_pc = Not_called | Stop_set | Returned

record arc_timer =
  stop :: bool
  timer :: "nat option"
  timers :: "timer_state list"
  firings :: nat
  run_pc :: run_pc
  cancel_pc :: cancel_pc

text \<open>After \<open>__init__\<close>: the flag is clear and \<open>_schedule\<close> has armed the first Timer.\<close>

definition arc_timer_init :: arc_timer where
  "arc_timer_init = \<lparr>stop = False, timer = Some 0, timers = [Armed], firings = 0,
                      run_pc = Idle, cancel_pc = Not_called\<rparr>"

datatype action =
    Expire nat
  | Target_returns
  | Check_stop
  | Arm
  | Set_stop
  | Cancel_timer

text \<open>
  \<open>Expire i\<close>: Timer \<open>i\<close> reaches its interval uncancelled and calls \<open>_run\<close>, which calls the
  target. \<open>Target_returns\<close>: the target ends and \<open>finally\<close> enters \<open>_schedule\<close>.
  \<open>Check_stop\<close>: \<open>if self._stop: return\<close>. \<open>Arm\<close>: the new Timer is created, stored in
  \<open>_timer\<close> and started. \<open>Set_stop\<close> and \<open>Cancel_timer\<close> are the two statements of
  \<open>cancel\<close>. A step that is not enabled gives nothing.
\<close>

fun step :: "arc_timer \<Rightarrow> action \<Rightarrow> arc_timer option" where
  "step s (Expire i) =
     (if i < length (timers s) \<and> timers s ! i = Armed \<and> run_pc s = Idle
      then Some (s\<lparr>timers := (timers s)[i := Fired], firings := firings s + 1, run_pc := In_target\<rparr>)
      else None)"
| "step s Target_returns =
     (if run_pc s = In_target then Some (s\<lparr>run_pc := At_stop_check\<rparr>) else None)"
| "step s Check_stop =
     (if run_pc s = At_stop_check
      then Some (s\<lparr>run_pc := (if stop s then Idle else At_arm)\<rparr>)
      else None)"
| "step s Arm =
     (if run_pc s = At_arm
      then Some (s\<lparr>timer := Some (length (timers s)), timers := timers s @ [Armed], run_pc := Idle\<rparr>)
      else None)"
| "step s Set_stop =
     (if cancel_pc s = Not_called then Some (s\<lparr>stop := True, cancel_pc := Stop_set\<rparr>) else None)"
| "step s Cancel_timer =
     (if cancel_pc s = Stop_set
      then Some (case timer s of
                   None \<Rightarrow> s\<lparr>cancel_pc := Returned\<rparr>
                 | Some i \<Rightarrow>
                     if i < length (timers s) \<and> timers s ! i = Armed
                     then s\<lparr>timers := (timers s)[i := Cancelled], cancel_pc := Returned\<rparr>
                     else s\<lparr>cancel_pc := Returned\<rparr>)
      else None)"

fun steps :: "arc_timer \<Rightarrow> action list \<Rightarrow> arc_timer option" where
  "steps s [] = Some s"
| "steps s (a # as) = (case step s a of None \<Rightarrow> None | Some s' \<Rightarrow> steps s' as)"

text \<open>
  The Timers still armed, what can still lead to a call of the target (an armed Timer,
  or a reschedule that has passed the stop check), and the shape every reachable state
  has: at most one Timer is armed, and then it is the one in \<open>_timer\<close> and no \<open>_run\<close>
  is under way.
\<close>

definition armed_count :: "arc_timer \<Rightarrow> nat" where
  "armed_count s = length (filter (\<lambda>t. t = Armed) (timers s))"

definition pending :: "arc_timer \<Rightarrow> nat" where
  "pending s = (if run_pc s = At_arm then 1 else 0) + armed_count s"

definition timer_inv :: "arc_timer \<Rightarrow> bool" where
  "timer_inv s \<longleftrightarrow>
     armed_count s = 0
     \<or> (armed_count s = 1 \<and> run_pc s = Idle
         \<and> (case timer s of None \<Rightarrow> False
             | Some i \<Rightarrow> i < length (timers s) \<and> timers s ! i = Armed))"

section \<open>Sample inputs\<close>

definition steve :: player where
  "steve = \<lparr>xuid_attr = Some ''2535400000000001'', uuid_attr = None, player_name = ''Steve'',
            health = Some 20, tip_raises = False, message_raises = False\<rparr>"

definition alex :: player where
  "alex = \<lparr>xuid_attr = None, uuid_attr = Some ''a1b2'', player_name = ''Alex'',
           health = Some 20, tip_raises = True, message_raises = False\<rparr>"

definition zoe :: player where
  "zoe = \<lparr>xuid_attr = Some ''2535400000000002'', uuid_attr = None, player_name = ''Zoe'',
          health = Some 6, tip_raises = False, message_raises = True\<rparr>"

text \<open>\<open>float\<close> on the texts the examples use; a text it does not list stands for one that does not parse.\<close>

definition float_table :: "string \<Rightarrow> real option" where
  "float_table = map_of [(''0.1'', 1 / 10), (''0.5'', 1 / 2), (''2.0'', 2), (''3.0'', 3),
                         (''50.0'', 50), (''100.0'', 100), (''150'', 150)]"

definition empty_settings :: setting_manager where
  "empty_settings = \<lparr>setting_dict = [], setting_file = ''''\<rparr>"

text \<open>A setting store that holds the given entries; its file is their rendering.\<close>

definition settings_of :: "(string \<times> string) list \<Rightarrow> setting_manager" where
  "settings_of kvs = \<lparr>setting_dict = kvs, setting_file = render_settings kvs\<rparr>"

section \<open>The setting store: reading a key\<close>

text \<open>
  C10. For every key, \<open>GetSetting\<close> returns the absent value both when the key was missing
  (and is then created with an empty value) and when it is stored with an empty value;
  it never returns the empty text, and after the call the key is in the store.
\<close>

theorem GetSetting_absent_or_nonempty:
  "fst (GetSetting sm key) \<noteq> Some ''''
   \<and> (map_of (setting_dict sm) key = None \<longrightarrow>
        fst (GetSetting sm key) = None
        \<and> map_of (setting_dict (snd (GetSetting sm key))) key = Some '''')
   \<and> (map_of (setting_dict sm) key = Some '''' \<longrightarrow>
        fst (GetSetting sm key) = None \<and> snd (GetSetting sm key) = sm)
   \<and> key \<in> fst ` set (setting_dict (snd (GetSetting sm key)))"
  by (auto simp: GetSetting_def Let_def AList.update_conv' AList.dom_update
           split: option.splits dest: map_of_SomeD weak_map_of_SomeI
           intro: rev_image_eqI)

theorem GetSetting_absent_or_nonempty_witness:
  "map_of (setting_dict \<lparr>setting_dict = [(''language'', ''CN'')], setting_file = ''language=CN''\<rparr>)
       ''thirst_initial'' = None
   \<and> fst (GetSetting \<lparr>setting_dict = [(''language'', ''CN'')], setting_file = ''language=CN''\<rparr>
            ''thirst_initial'') = None
   \<and> map_of (setting_dict \<lparr>setting_dict = [(''language'', '''')], setting_file = ''language=''\<rparr>)
       ''language'' = Some ''''
   \<and> fst (GetSetting \<lparr>setting_dict = [(''language'', '''')], setting_file = ''language=''\<rparr>
            ''language'') = None"
  using GetSetting_absent_or_nonempty
          [of "\<lparr>setting_dict = [(''language'', ''CN'')], setting_file = ''language=CN''\<rparr>"
              "''thirst_initial''"]
        GetSetting_absent_or_nonempty
          [of "\<lparr>setting_dict = [(''language'', '''')], setting_file = ''language=''\<rparr>"
              "''language''"]
  by simp

section \<open>The durable table: load on attach and save\<close>

subsection \<open>Facts about the table operations\<close>

lemma query_one_None_iff: "query_one rows x = None \<longleftrightarrow> records_for rows x = []"
  by (induction rows) (auto simp: query_one_def records_for_def)

lemma query_one_Some_xuid: "query_one rows x = Some r \<Longrightarrow> row_xuid r = x \<and> r \<in> set rows"
  by (induction rows) (auto simp: query_one_def split: if_splits)

lemma records_for_append: "records_for (rs @ rs') x = records_for rs x @ records_for rs' x"
  by (simp add: records_for_def)

lemma records_for_notin: "x \<notin> row_xuid ` set rows \<Longrightarrow> records_for rows x = []"
  by (induction rows) (auto simp: records_for_def)

lemma records_for_distinct:
  "distinct (map row_xuid rows) \<Longrightarrow> query_one rows x = Some r \<Longrightarrow> records_for rows x = [r]"
proof (induction rows)
  case Nil
  then show ?case by (simp add: query_one_def)
next
  case (Cons a rows)
  show ?case
  proof (cases "row_xuid a = x")
    case True
    with Cons.prems have "a = r" "x \<notin> row_xuid ` set rows"
      by (auto simp: query_one_def)
    then show ?thesis using True
      by (simp add: records_for_def records_for_notin [unfolded records_for_def])
  next
    case False
    with Cons show ?thesis by (simp add: query_one_def records_for_def)
  qed
qed

lemma records_for_update_same:
  "records_for (update_rows rows x nm lvl ts) x
     = map (\<lambda>r. r\<lparr>row_player_name := nm, row_thirst := lvl, row_updated_at := ts\<rparr>) (records_for rows x)"
  by (induction rows) (auto simp: records_for_def update_rows_def)

lemma records_for_update_other:
  "y \<noteq> x \<Longrightarrow> records_for (update_rows rows x nm lvl ts) y = records_for rows y"
  by (induction rows) (auto simp: records_for_def update_rows_def)

lemma xuids_update_rows: "map row_xuid (update_rows rows x nm lvl ts) = map row_xuid rows"
  by (induction rows) (auto simp: update_rows_def)

lemma length_update_rows: "length (update_rows rows x nm lvl ts) = length rows"
  by (simp add: update_rows_def)

lemma persist_absent:
  "query_one (player_thirst st) (get_player_xuid p) = None \<Longrightarrow>
   persist_player_thirst st p now =
     st\<lparr>player_thirst := player_thirst st @
          [\<lparr>row_xuid = get_player_xuid p, row_player_name = player_name p,
            row_thirst = thirst_of st (get_player_xuid p), row_updated_at = now\<rparr>]\<rparr>"
  by (simp add: persist_player_thirst_def Let_def insert_row_def)

lemma persist_present:
  "query_one (player_thirst st) (get_player_xuid p) = Some r \<Longrightarrow>
   persist_player_thirst st p now =
     st\<lparr>player_thirst := update_rows (player_thirst st) (get_player_xuid p) (player_name p)
                            (thirst_of st (get_player_xuid p)) now\<rparr>"
  by (simp add: persist_player_thirst_def Let_def)

lemma thirst_of_persist [simp]: "thirst_of (persist_player_thirst st p now) y = thirst_of st y"
  by (simp add: persist_player_thirst_def Let_def thirst_of_def split: option.splits)

lemma persist_records_same:
  assumes "distinct (map row_xuid (player_thirst st))"
  shows "records_for (player_thirst (persist_player_thirst st p now)) (get_player_xuid p)
         = [\<lparr>row_xuid = get_player_xuid p, row_player_name = player_name p,
             row_thirst = thirst_of st (get_player_xuid p), row_updated_at = now\<rparr>]"
proof (cases "query_one (player_thirst st) (get_player_xuid p)")
  case None
  then have "records_for (player_thirst st) (get_player_xuid p) = []"
    by (simp add: query_one_None_iff)
  with None show ?thesis
    by (simp add: persist_absent records_for_append) (simp add: records_for_def)
next
  case (Some r)
  with assms have "records_for (player_thirst st) (get_player_xuid p) = [r]"
    by (rule records_for_distinct)
  moreover have "row_xuid r = get_player_xuid p"
    using Some by (simp add: query_one_Some_xuid)
  ultimately show ?thesis
    using Some by (simp add: persist_present records_for_update_same)
qed

lemma persist_records_other:
  "y \<noteq> get_player_xuid p \<Longrightarrow>
   records_for (player_thirst (persist_player_thirst st p now)) y = records_for (player_thirst st) y"
  by (cases "query_one (player_thirst st) (get_player_xuid p)")
     (simp_all add: persist_absent persist_present records_for_append records_for_update_other,
      simp add: records_for_def)

lemma persist_distinct:
  assumes "distinct (map row_xuid (player_thirst st))"
  shows "distinct (map row_xuid (player_thirst (persist_player_thirst st p now)))"
proof (cases "query_one (player_thirst st) (get_player_xuid p)")
  case None
  then have "records_for (player_thirst st) (get_player_xuid p) = []"
    by (simp add: query_one_None_iff)
  then have "get_player_xuid p \<notin> row_xuid ` set (player_thirst st)"
    by (auto simp: records_for_def filter_empty_conv)
  with assms None show ?thesis by (simp add: persist_absent)
next
  case (Some r)
  with assms show ?thesis by (simp add: persist_present xuids_update_rows)
qed

lemma query_one_after_insert:
  "row_xuid r = x \<Longrightarrow> query_one (rows @ [r]) x \<noteq> None"
  by (simp add: query_one_None_iff records_for_append) (simp add: records_for_def)

lemma query_one_after_update:
  "query_one rows x = Some r \<Longrightarrow> query_one (update_rows rows x nm lvl ts) x \<noteq> None"
proof -
  assume "query_one rows x = Some r"
  then have "records_for rows x \<noteq> []"
    using query_one_None_iff [of rows x] by simp
  then show ?thesis
    by (simp add: query_one_None_iff records_for_update_same)
qed

lemma update_rows_absent:
  "query_one rows x = None \<Longrightarrow> update_rows rows x nm lvl ts = rows"
  by (induction rows) (auto simp: query_one_def update_rows_def split: if_splits)

lemma update_rows_append:
  "update_rows (rows @ rows') x nm lvl ts = update_rows rows x nm lvl ts @ update_rows rows' x nm lvl ts"
  by (simp add: update_rows_def)

lemma update_rows_twice:
  "update_rows (update_rows rows x nm lvl ts) x nm lvl ts = update_rows rows x nm lvl ts"
  by (induction rows) (auto simp: update_rows_def)

lemma persist_twice_same_clock:
  "persist_player_thirst (persist_player_thirst st p now) p now = persist_player_thirst st p now"
proof (cases "query_one (player_thirst st) (get_player_xuid p)")
  case None
  let ?row = "\<lparr>row_xuid = get_player_xuid p, row_player_name = player_name p,
            row_thirst = thirst_of st (get_player_xuid p), row_updated_at = now\<rparr>"
  let ?st1 = "persist_player_thirst st p now"
  have rows1: "player_thirst ?st1 = player_thirst st @ [?row]"
    using None by (simp add: persist_absent)
  then obtain r where q: "query_one (player_thirst ?st1) (get_player_xuid p) = Some r"
    using query_one_after_insert [of ?row "get_player_xuid p" "player_thirst st"]
    by (cases "query_one (player_thirst ?st1) (get_player_xuid p)") simp_all
  have "persist_player_thirst ?st1 p now =
        ?st1\<lparr>player_thirst := update_rows (player_thirst ?st1) (get_player_xuid p) (player_name p)
                            (thirst_of ?st1 (get_player_xuid p)) now\<rparr>"
    using q by (rule persist_present)
  also have "update_rows (player_thirst ?st1) (get_player_xuid p) (player_name p)
                            (thirst_of ?st1 (get_player_xuid p)) now = player_thirst ?st1"
    using None by (simp add: rows1 update_rows_append update_rows_absent) (simp add: update_rows_def)
  finally show ?thesis by simp
next
  case (Some r)
  let ?st1 = "persist_player_thirst st p now"
  have rows1: "player_thirst ?st1 = update_rows (player_thirst st) (get_player_xuid p) (player_name p)
                            (thirst_of st (get_player_xuid p)) now"
    using Some by (simp add: persist_present)
  then obtain r' where q: "query_one (player_thirst ?st1) (get_player_xuid p) = Some r'"
    using query_one_after_update [OF Some, of "player_name p" "thirst_of st (get_player_xuid p)" now]
    by (cases "query_one (player_thirst ?st1) (get_player_xuid p)") simp_all
  have "persist_player_thirst ?st1 p now =
        ?st1\<lparr>player_thirst := update_rows (player_thirst ?st1) (get_player_xuid p) (player_name p)
                            (thirst_of ?st1 (get_player_xuid p)) now\<rparr>"
    using q by (rule persist_present)
  also have "update_rows (player_thirst ?st1) (get_player_xuid p) (player_name p)
                            (thirst_of ?st1 (get_player_xuid p)) now = player_thirst ?st1"
    by (simp add: rows1 update_rows_twice)
  finally show ?thesis by simp
qed

lemma load_absent:
  assumes "query_one (player_thirst st) (get_player_xuid p) = None"
  shows "load_player_thirst st p now =
     (thirst_initial st,
      st\<lparr>player_xuid_to_thirst := (player_xuid_to_thirst st)(get_player_xuid p \<mapsto> thirst_initial st),
         calls := calls st @ [Log ''info'' ''Loading thirst'', Log ''info'' ''New player''],
         player_thirst := player_thirst st @
            [\<lparr>row_xuid = get_player_xuid p, row_player_name = player_name p,
              row_thirst = thirst_initial st, row_updated_at = now\<rparr>]\<rparr>)"
  using assms by (simp add: load_player_thirst_def Let_def safe_log_def insert_row_def)

lemma load_present:
  assumes "query_one (player_thirst st) (get_player_xuid p) = Some row"
  shows "load_player_thirst st p now =
     (row_thirst row,
      st\<lparr>player_xuid_to_thirst := (player_xuid_to_thirst st)(get_player_xuid p \<mapsto> row_thirst row),
         calls := calls st @ [Log ''info'' ''Loading thirst'', Log ''info'' ''Loaded existing thirst'']\<rparr>)"
  using assms by (simp add: load_player_thirst_def Let_def safe_log_def insert_row_def)

subsection \<open>Load on attach\<close>

text \<open>
  C5. On attach, an identity with no durable record gets the configured initial level in
  memory and exactly one new durable record; an identity whose record holds a level
  (42.5, say) gets that level in memory and no record is added. Either way the level
  returned is the level in memory after the call.
\<close>

theorem load_player_thirst_default_or_stored:
  "(query_one (player_thirst st) (get_player_xuid p) = None \<longrightarrow>
      fst (load_player_thirst st p now) = thirst_initial st
      \<and> player_xuid_to_thirst (snd (load_player_thirst st p now)) (get_player_xuid p)
          = Some (thirst_initial st)
      \<and> player_thirst (snd (load_player_thirst st p now))
          = player_thirst st @ [\<lparr>row_xuid = get_player_xuid p, row_player_name = player_name p,
                                  row_thirst = thirst_initial st, row_updated_at = now\<rparr>]
      \<and> length (records_for (player_thirst (snd (load_player_thirst st p now))) (get_player_xuid p)) = 1)
   \<and> (\<forall>row. query_one (player_thirst st) (get_player_xuid p) = Some row \<longrightarrow>
      fst (load_player_thirst st p now) = row_thirst row
      \<and> player_xuid_to_thirst (snd (load_player_thirst st p now)) (get_player_xuid p)
          = Some (row_thirst row)
      \<and> player_thirst (snd (load_player_thirst st p now)) = player_thirst st)
   \<and> fst (load_player_thirst st p now)
       = thirst_of (snd (load_player_thirst st p now)) (get_player_xuid p)"
proof (cases "query_one (player_thirst st) (get_player_xuid p)")
  case None
  then have "records_for (player_thirst st) (get_player_xuid p) = []"
    by (simp add: query_one_None_iff)
  with None show ?thesis
    by (simp add: load_absent records_for_append thirst_of_def) (simp add: records_for_def)
next
  case (Some row)
  then show ?thesis
    by (simp add: load_present thirst_of_def)
qed

theorem load_player_thirst_default_or_stored_witness:
  "query_one (player_thirst (init_plugin empty_settings [])) (get_player_xuid steve) = None
   \<and> fst (load_player_thirst (init_plugin empty_settings []) steve ''2025-01-01T00:00:00'') = 100
   \<and> length (player_thirst (snd (load_player_thirst (init_plugin empty_settings []) steve
                 ''2025-01-01T00:00:00''))) = 1
   \<and> query_one (player_thirst (init_plugin empty_settings
          [\<lparr>row_xuid = ''2535400000000001'', row_player_name = ''Steve'',
            row_thirst = 85 / 2, row_updated_at = ''2024-12-31T23:59:59''\<rparr>]))
        (get_player_xuid steve)
       = Some \<lparr>row_xuid = ''2535400000000001'', row_player_name = ''Steve'',
            row_thirst = 85 / 2, row_updated_at = ''2024-12-31T23:59:59''\<rparr>
   \<and> fst (load_player_thirst (init_plugin empty_settings
          [\<lparr>row_xuid = ''2535400000000001'', row_player_name = ''Steve'',
            row_thirst = 85 / 2, row_updated_at = ''2024-12-31T23:59:59''\<rparr>])
        steve ''2025-01-01T00:00:00'') = 85 / 2
   \<and> length (player_thirst (snd (load_player_thirst (init_plugin empty_settings
          [\<lparr>row_xuid = ''2535400000000001'', row_player_name = ''Steve'',
            row_thirst = 85 / 2, row_updated_at = ''2024-12-31T23:59:59''\<rparr>])
        steve ''2025-01-01T00:00:00''))) = 1"
  using load_player_thirst_default_or_stored
          [of "init_plugin empty_settings []" steve "''2025-01-01T00:00:00''"]
        load_player_thirst_default_or_stored
          [of "init_plugin empty_settings
                 [\<lparr>row_xuid = ''2535400000000001'', row_player_name = ''Steve'',
                   row_thirst = 85 / 2, row_updated_at = ''2024-12-31T23:59:59''\<rparr>]"
              steve "''2025-01-01T00:00:00''"]
  by (simp add: init_plugin_def steve_def get_player_xuid_def query_one_def)

subsection \<open>Save\<close>

text \<open>
  C6. Save is an idempotent upsert. With the table keyed by identity (no two rows share
  one), saving inserts a record when the identity has none and otherwise rewrites the
  level and timestamp of the existing one; after one save, and after a second save in a
  row, the identity has exactly one record, holding the level in memory and the latest
  timestamp; the second save adds no row, repeating a save at the same clock reading
  changes nothing, and the records of other identities are untouched.
\<close>

theorem persist_is_idempotent_upsert:
  assumes "distinct (map row_xuid (player_thirst st))"
  shows "(query_one (player_thirst st) (get_player_xuid p) = None \<longrightarrow>
            player_thirst (persist_player_thirst st p now) =
              player_thirst st @ [\<lparr>row_xuid = get_player_xuid p, row_player_name = player_name p,
                 row_thirst = thirst_of st (get_player_xuid p), row_updated_at = now\<rparr>])
       \<and> (query_one (player_thirst st) (get_player_xuid p) \<noteq> None \<longrightarrow>
            player_thirst (persist_player_thirst st p now) =
              update_rows (player_thirst st) (get_player_xuid p) (player_name p)
                 (thirst_of st (get_player_xuid p)) now
            \<and> length (player_thirst (persist_player_thirst st p now)) = length (player_thirst st))
       \<and> records_for (player_thirst (persist_player_thirst st p now)) (get_player_xuid p)
            = [\<lparr>row_xuid = get_player_xuid p, row_player_name = player_name p,
                row_thirst = thirst_of st (get_player_xuid p), row_updated_at = now\<rparr>]
       \<and> records_for (player_thirst (persist_player_thirst (persist_player_thirst st p now) p later))
              (get_player_xuid p)
            = [\<lparr>row_xuid = get_player_xuid p, row_player_name = player_name p,
                row_thirst = thirst_of st (get_player_xuid p), row_updated_at = later\<rparr>]
       \<and> length (player_thirst (persist_player_thirst (persist_player_thirst st p now) p later))
            = length (player_thirst (persist_player_thirst st p now))
       \<and> persist_player_thirst (persist_player_thirst st p now) p now = persist_player_thirst st p now
       \<and> (\<forall>y. y \<noteq> get_player_xuid p \<longrightarrow>
             records_for (player_thirst (persist_player_thirst st p now)) y
             = records_for (player_thirst st) y)"
proof -
  let ?st1 = "persist_player_thirst st p now"
  have d1: "distinct (map row_xuid (player_thirst ?st1))"
    using assms by (rule persist_distinct)
  have r1: "records_for (player_thirst ?st1) (get_player_xuid p)
            = [\<lparr>row_xuid = get_player_xuid p, row_player_name = player_name p,
                row_thirst = thirst_of st (get_player_xuid p), row_updated_at = now\<rparr>]"
    using assms by (rule persist_records_same)
  have r2: "records_for (player_thirst (persist_player_thirst ?st1 p later)) (get_player_xuid p)
            = [\<lparr>row_xuid = get_player_xuid p, row_player_name = player_name p,
                row_thirst = thirst_of st (get_player_xuid p), row_updated_at = later\<rparr>]"
    using persist_records_same [OF d1, of p later] by simp
  have q1: "query_one (player_thirst ?st1) (get_player_xuid p) \<noteq> None"
    using r1 by (simp add: query_one_None_iff)
  have l2: "length (player_thirst (persist_player_thirst ?st1 p later)) = length (player_thirst ?st1)"
    using q1 by (auto simp: persist_present length_update_rows)
  show ?thesis
    using r1 r2 l2 persist_twice_same_clock [of st p now]
    by (auto simp: persist_absent persist_present length_update_rows persist_records_other)
qed

theorem persist_is_idempotent_upsert_witness:
  "distinct (map row_xuid (player_thirst (init_plugin empty_settings
      [\<lparr>row_xuid = ''2535400000000001'', row_player_name = ''Steve'',
        row_thirst = 85 / 2, row_updated_at = ''2024-12-31T23:59:59''\<rparr>])))
   \<and> query_one (player_thirst (init_plugin empty_settings
      [\<lparr>row_xuid = ''2535400000000001'', row_player_name = ''Steve'',
        row_thirst = 85 / 2, row_updated_at = ''2024-12-31T23:59:59''\<rparr>])) (get_player_xuid steve)
       \<noteq> None
   \<and> records_for (player_thirst (persist_player_thirst (persist_player_thirst
        (init_plugin empty_settings
          [\<lparr>row_xuid = ''2535400000000001'', row_player_name = ''Steve'',
            row_thirst = 85 / 2, row_updated_at = ''2024-12-31T23:59:59''\<rparr>])
        steve ''2025-01-01T00:00:00'') steve ''2025-01-01T00:00:01'')) ''2535400000000001''
       = [\<lparr>row_xuid = ''2535400000000001'', row_player_name = ''Steve'',
           row_thirst = 100, row_updated_at = ''2025-01-01T00:00:01''\<rparr>]
   \<and> distinct (map row_xuid (player_thirst (init_plugin empty_settings [])))
   \<and> query_one (player_thirst (init_plugin empty_settings [])) (get_player_xuid steve) = None
   \<and> player_thirst (persist_player_thirst (init_plugin empty_settings []) steve ''2025-01-01T00:00:00'')
       = [\<lparr>row_xuid = ''2535400000000001'', row_player_name = ''Steve'',
           row_thirst = 100, row_updated_at = ''2025-01-01T00:00:00''\<rparr>]
   \<and> ''a1b2'' \<noteq> get_player_xuid steve
   \<and> records_for (player_thirst (persist_player_thirst (init_plugin empty_settings []) steve
         ''2025-01-01T00:00:00'')) ''a1b2'' = []"
  using persist_is_idempotent_upsert
          [of "init_plugin empty_settings
                 [\<lparr>row_xuid = ''2535400000000001'', row_player_name = ''Steve'',
                   row_thirst = 85 / 2, row_updated_at = ''2024-12-31T23:59:59''\<rparr>]"
              steve "''2025-01-01T00:00:00''" "''2025-01-01T00:00:01''"]
        persist_is_idempotent_upsert
          [of "init_plugin empty_settings []" steve "''2025-01-01T00:00:00''" "''2025-01-01T00:00:01''"]
  by (simp add: init_plugin_def steve_def get_player_xuid_def thirst_of_def query_one_def
        records_for_def)

section \<open>The tick: one player's step\<close>

subsection \<open>What each step leaves alone\<close>

lemma persist_fields [simp]:
  "player_xuid_to_thirst (persist_player_thirst st p now) = player_xuid_to_thirst st"
  "player_moving_flags (persist_player_thirst st p now) = player_moving_flags st"
  "thirst_decay_per_second (persist_player_thirst st p now) = thirst_decay_per_second st"
  "thirst_moving_multiplier (persist_player_thirst st p now) = thirst_moving_multiplier st"
  "thirst_initial (persist_player_thirst st p now) = thirst_initial st"
  "thirst_damage_timer (persist_player_thirst st p now) = thirst_damage_timer st"
  "settings (persist_player_thirst st p now) = settings st"
  "calls (persist_player_thirst st p now) = calls st"
  by (simp_all add: persist_player_thirst_def Let_def split: option.splits)

lemma damage_fields [simp]:
  "player_xuid_to_thirst (apply_thirst_damage st p) = player_xuid_to_thirst st"
  "player_moving_flags (apply_thirst_damage st p) = player_moving_flags st"
  "thirst_decay_per_second (apply_thirst_damage st p) = thirst_decay_per_second st"
  "thirst_moving_multiplier (apply_thirst_damage st p) = thirst_moving_multiplier st"
  "thirst_initial (apply_thirst_damage st p) = thirst_initial st"
  "thirst_damage_timer (apply_thirst_damage st p) = thirst_damage_timer st"
  "settings (apply_thirst_damage st p) = settings st"
  "player_thirst (apply_thirst_damage st p) = player_thirst st"
  by (simp_all add: apply_thirst_damage_def apply_buff_to_player_def safe_log_def Let_def
               split: option.splits)

lemma delta_fields [simp]:
  "player_xuid_to_thirst (snd (apply_thirst_delta st p d)) =
     (player_xuid_to_thirst st)(get_player_xuid p \<mapsto> clamp_thirst (thirst_of st (get_player_xuid p) + d))"
  "player_moving_flags (snd (apply_thirst_delta st p d)) = player_moving_flags st"
  "thirst_decay_per_second (snd (apply_thirst_delta st p d)) = thirst_decay_per_second st"
  "thirst_moving_multiplier (snd (apply_thirst_delta st p d)) = thirst_moving_multiplier st"
  "thirst_initial (snd (apply_thirst_delta st p d)) = thirst_initial st"
  "thirst_damage_timer (snd (apply_thirst_delta st p d)) = thirst_damage_timer st"
  "settings (snd (apply_thirst_delta st p d)) = settings st"
  "player_thirst (snd (apply_thirst_delta st p d)) = player_thirst st"
  by (simp_all add: apply_thirst_delta_def Let_def)

lemma delta_result:
  "fst (apply_thirst_delta st p d) =
     (if \<lfloor>clamp_thirst (thirst_of st (get_player_xuid p) + d)\<rfloor> \<noteq> \<lfloor>thirst_of st (get_player_xuid p)\<rfloor>
         \<and> tip_raises p
      then Inl HostError
      else Inr (clamp_thirst (thirst_of st (get_player_xuid p) + d)))"
  by (simp add: apply_thirst_delta_def Let_def)

lemma thirst_of_cong:
  "player_xuid_to_thirst s = player_xuid_to_thirst t \<Longrightarrow> thirst_initial s = thirst_initial t
   \<Longrightarrow> thirst_of s y = thirst_of t y"
  by (simp add: thirst_of_def split: option.splits)

lemma thirst_of_damage [simp]: "thirst_of (apply_thirst_damage st p) y = thirst_of st y"
  by (rule thirst_of_cong) simp_all

lemma thirst_of_delta:
  "thirst_of (snd (apply_thirst_delta st p d)) y =
     (if y = get_player_xuid p then clamp_thirst (thirst_of st y + d) else thirst_of st y)"
  by (simp add: thirst_of_def split: option.splits)

text \<open>The step of one player, in terms of its parts.\<close>

lemma tick_player_unfold:
  "tick_player st p now =
     (let x = get_player_xuid p;
          r = (if decay_for st x > 0 then apply_thirst_delta st p (- decay_for st x) else (Inr 0, st))
      in case fst r of
           Inl e \<Rightarrow> (Some e, snd r)
         | Inr _ \<Rightarrow>
             (None, persist_player_thirst
                ((if thirst_damage_timer (snd r) \<ge> 10 \<and> thirst_of (snd r) x \<le> 0
                  then apply_thirst_damage (snd r) p else snd r)
                 \<lparr>player_moving_flags := (player_moving_flags st)(x := None)\<rparr>) p now))"
proof (cases "decay_for st (get_player_xuid p) > 0")
  case False
  then show ?thesis
    by (simp add: tick_player_def decay_for_def moving_flag_of_def Let_def)
next
  case True
  obtain r s where eq: "apply_thirst_delta st p (- decay_for st (get_player_xuid p)) = (r, s)"
    by (cases "apply_thirst_delta st p (- decay_for st (get_player_xuid p))")
  have "player_moving_flags (snd (apply_thirst_delta st p (- decay_for st (get_player_xuid p))))
        = player_moving_flags st"
    by simp
  then have fl: "player_moving_flags s = player_moving_flags st"
    by (simp add: eq)
  from True eq have "tick_player st p now =
      (case r of
         Inl e \<Rightarrow> (Some e, s)
       | Inr _ \<Rightarrow>
           (None, persist_player_thirst
              ((if thirst_damage_timer s \<ge> 10
                then (if thirst_of s (get_player_xuid p) \<le> 0 then apply_thirst_damage s p else s)
                else s)
               \<lparr>player_moving_flags :=
                  (player_moving_flags
                     (if thirst_damage_timer s \<ge> 10
                      then (if thirst_of s (get_player_xuid p) \<le> 0 then apply_thirst_damage s p else s)
                      else s))(get_player_xuid p := None)\<rparr>) p now))"
    by (simp add: tick_player_def decay_for_def moving_flag_of_def Let_def split: sum.splits)
  with True eq fl show ?thesis
    by (cases r) (simp_all add: Let_def)
qed

subsection \<open>One player's step\<close>

lemma thirst_of_flags [simp]:
  "thirst_of (st\<lparr>player_moving_flags := f\<rparr>) y = thirst_of st y"
  by (rule thirst_of_cong) simp_all

lemma thirst_of_calls [simp]:
  "thirst_of (st\<lparr>calls := c\<rparr>) y = thirst_of st y"
  by (rule thirst_of_cong) simp_all

lemma thirst_of_timer [simp]:
  "thirst_of (st\<lparr>thirst_damage_timer := t\<rparr>) y = thirst_of st y"
  by (rule thirst_of_cong) simp_all

lemma thirst_of_after_decay:
  "thirst_of (after_decay st p) y =
     (if y = get_player_xuid p \<and> decay_for st y > 0
      then clamp_thirst (thirst_of st y - decay_for st y) else thirst_of st y)"
  by (auto simp: after_decay_def thirst_of_delta)

lemma after_decay_fields [simp]:
  "player_moving_flags (after_decay st p) = player_moving_flags st"
  "thirst_decay_per_second (after_decay st p) = thirst_decay_per_second st"
  "thirst_moving_multiplier (after_decay st p) = thirst_moving_multiplier st"
  "thirst_initial (after_decay st p) = thirst_initial st"
  "thirst_damage_timer (after_decay st p) = thirst_damage_timer st"
  "settings (after_decay st p) = settings st"
  "player_thirst (after_decay st p) = player_thirst st"
  by (simp_all add: after_decay_def)

lemma after_damage_fields [simp]:
  "player_xuid_to_thirst (after_damage st p) = player_xuid_to_thirst (after_decay st p)"
  "player_moving_flags (after_damage st p) = player_moving_flags st"
  "thirst_decay_per_second (after_damage st p) = thirst_decay_per_second st"
  "thirst_moving_multiplier (after_damage st p) = thirst_moving_multiplier st"
  "thirst_initial (after_damage st p) = thirst_initial st"
  "thirst_damage_timer (after_damage st p) = thirst_damage_timer st"
  "settings (after_damage st p) = settings st"
  "player_thirst (after_damage st p) = player_thirst st"
  by (simp_all add: after_damage_def)

lemma thirst_of_after_damage [simp]:
  "thirst_of (after_damage st p) y = thirst_of (after_decay st p) y"
  by (rule thirst_of_cong) simp_all

lemma tick_player_eq:
  "tick_player st p now =
     (if decay_raises st p then (Some HostError, after_decay st p)
      else (None, persist_player_thirst
              ((after_damage st p)\<lparr>player_moving_flags :=
                   (player_moving_flags st)(get_player_xuid p := None)\<rparr>) p now))"
proof (cases "decay_for st (get_player_xuid p) > 0")
  case False
  then show ?thesis
    by (simp add: tick_player_unfold Let_def decay_raises_def after_damage_def after_decay_def)
next
  case True
  then have ad: "after_decay st p = snd (apply_thirst_delta st p (- decay_for st (get_player_xuid p)))"
    by (simp add: after_decay_def)
  show ?thesis
  proof (cases "decay_raises st p")
    case True
    then have "fst (apply_thirst_delta st p (- decay_for st (get_player_xuid p))) = Inl HostError"
      by (auto simp: decay_raises_def delta_result thirst_of_after_decay)
    with True \<open>decay_for st (get_player_xuid p) > 0\<close> show ?thesis
      by (simp add: tick_player_unfold Let_def ad)
  next
    case False
    with True have "fst (apply_thirst_delta st p (- decay_for st (get_player_xuid p)))
        = Inr (clamp_thirst (thirst_of st (get_player_xuid p) - decay_for st (get_player_xuid p)))"
      by (auto simp: decay_raises_def delta_result thirst_of_after_decay)
    with False True show ?thesis
      by (simp add: tick_player_unfold Let_def after_damage_def ad [symmetric])
  qed
qed


lemma fst_tick_player:
  "fst (tick_player st p now) = (if decay_raises st p then Some HostError else None)"
  by (simp add: tick_player_eq)

lemma tick_player_ok: "\<not> tip_raises p \<Longrightarrow> fst (tick_player st p now) = None"
  by (simp add: fst_tick_player decay_raises_def)

lemma tick_player_config [simp]:
  "thirst_decay_per_second (snd (tick_player st p now)) = thirst_decay_per_second st"
  "thirst_moving_multiplier (snd (tick_player st p now)) = thirst_moving_multiplier st"
  "thirst_initial (snd (tick_player st p now)) = thirst_initial st"
  "thirst_damage_timer (snd (tick_player st p now)) = thirst_damage_timer st"
  "settings (snd (tick_player st p now)) = settings st"
  by (simp_all add: tick_player_eq)

lemma tick_player_map:
  "player_xuid_to_thirst (snd (tick_player st p now)) = player_xuid_to_thirst (after_decay st p)"
  by (simp add: tick_player_eq)

lemma tick_player_level:
  "thirst_of (snd (tick_player st p now)) y = thirst_of (after_decay st p) y"
  by (rule thirst_of_cong) (simp_all add: tick_player_map)

lemma tick_player_flags:
  "player_moving_flags (snd (tick_player st p now)) =
     (if decay_raises st p then player_moving_flags st
      else (player_moving_flags st)(get_player_xuid p := None))"
  by (simp add: tick_player_eq)


lemma tick_player_table:
  "player_thirst (snd (tick_player st p now)) =
     (if decay_raises st p then player_thirst st
      else player_thirst (persist_player_thirst (after_decay st p) p now))"
  by (simp add: tick_player_eq persist_player_thirst_def Let_def thirst_of_def
           split: option.splits)

subsection \<open>Damage commands\<close>

lemma damage_calls_append [simp]:
  "damage_calls n (cs @ ds) = damage_calls n cs + damage_calls n ds"
  by (simp add: damage_calls_def)

lemma damage_calls_after_decay [simp]:
  "damage_calls n (calls (after_decay st p)) = damage_calls n (calls st)"
  by (simp add: after_decay_def apply_thirst_delta_def Let_def damage_calls_def)




subsection \<open>The loop over the online players\<close>

lemma tick_players_Cons:
  "tick_players st (a # ps) now =
     (if decay_raises st a then (Some HostError, after_decay st a)
      else tick_players (snd (tick_player st a now)) ps now)"
  by (simp add: tick_player_eq)

lemma tick_players_ok:
  "no_tip_raises ps \<Longrightarrow> fst (tick_players st ps now) = None"
proof (induction ps arbitrary: st)
  case Nil
  show ?case by simp
next
  case (Cons a ps)
  then have "\<not> decay_raises st a" "no_tip_raises ps"
    by (simp_all add: no_tip_raises_def decay_raises_def)
  with Cons.IH show ?case
    by (simp only: tick_players_Cons if_False)
qed

lemma tick_players_config_all:
  "thirst_decay_per_second (snd (tick_players st ps now)) = thirst_decay_per_second st
   \<and> thirst_moving_multiplier (snd (tick_players st ps now)) = thirst_moving_multiplier st
   \<and> thirst_initial (snd (tick_players st ps now)) = thirst_initial st
   \<and> thirst_damage_timer (snd (tick_players st ps now)) = thirst_damage_timer st
   \<and> settings (snd (tick_players st ps now)) = settings st"
proof (induction ps arbitrary: st)
  case Nil
  show ?case by simp
next
  case (Cons a ps)
  from Cons.IH [of "snd (tick_player st a now)"] show ?case
    by (simp add: tick_players_Cons del: tick_players.simps)
qed

lemma tick_players_config [simp]:
  "thirst_decay_per_second (snd (tick_players st ps now)) = thirst_decay_per_second st"
  "thirst_moving_multiplier (snd (tick_players st ps now)) = thirst_moving_multiplier st"
  "thirst_initial (snd (tick_players st ps now)) = thirst_initial st"
  "thirst_damage_timer (snd (tick_players st ps now)) = thirst_damage_timer st"
  "settings (snd (tick_players st ps now)) = settings st"
  using tick_players_config_all [of st ps now] by simp_all


lemma clamp_range: "0 \<le> clamp_thirst v \<and> clamp_thirst v \<le> 100"
  by (simp add: clamp_thirst_def)



lemma decay_for_cong:
  "player_moving_flags s x = player_moving_flags t x \<Longrightarrow>
   thirst_decay_per_second s = thirst_decay_per_second t \<Longrightarrow>
   thirst_moving_multiplier s = thirst_moving_multiplier t \<Longrightarrow>
   decay_for s x = decay_for t x"
  by (simp add: decay_for_def moving_flag_of_def)

lemma tick_players_other:
  "x \<notin> get_player_xuid ` set ps \<Longrightarrow>
   thirst_of (snd (tick_players st ps now)) x = thirst_of st x
   \<and> player_moving_flags (snd (tick_players st ps now)) x = player_moving_flags st x"
proof (induction ps arbitrary: st)
  case Nil
  show ?case by simp
next
  case (Cons a ps)
  then have ne: "x \<noteq> get_player_xuid a" and rest: "x \<notin> get_player_xuid ` set ps"
    by auto
  have a: "thirst_of (snd (tick_player st a now)) x = thirst_of st x"
    using ne by (simp add: tick_player_level thirst_of_after_decay)
  have b: "player_moving_flags (snd (tick_player st a now)) x = player_moving_flags st x"
    using ne by (simp add: tick_player_flags)
  show ?case
    using Cons.IH [OF rest, of "snd (tick_player st a now)"] a b ne
    by (simp add: tick_players_Cons thirst_of_after_decay del: tick_players.simps)
qed

text \<open>The level and the flag of a player the loop processes, when its identity is its own.\<close>

lemma tick_players_member:
  assumes "distinct (map get_player_xuid ps)" "no_tip_raises ps" "p \<in> set ps"
  shows "thirst_of (snd (tick_players st ps now)) (get_player_xuid p)
           = thirst_of (after_decay st p) (get_player_xuid p)
         \<and> player_moving_flags (snd (tick_players st ps now)) (get_player_xuid p) = None"
  using assms
proof (induction ps arbitrary: st)
  case Nil
  then show ?case by simp
next
  case (Cons a ps)
  have nr: "\<not> decay_raises st a" and ntr: "no_tip_raises ps"
    using Cons.prems(2) by (simp_all add: no_tip_raises_def decay_raises_def)
  let ?s = "snd (tick_player st a now)"
  show ?case
  proof (cases "a = p")
    case True
    with Cons.prems(1) have "get_player_xuid p \<notin> get_player_xuid ` set ps"
      by simp
    from tick_players_other [OF this, of ?s now] True nr show ?thesis
      by (simp add: tick_players_Cons tick_player_level tick_player_flags del: tick_players.simps)
  next
    case False
    with Cons.prems have mem: "p \<in> set ps" and d: "distinct (map get_player_xuid ps)"
      and nin: "get_player_xuid a \<notin> get_player_xuid ` set ps"
      by auto
    from mem have "get_player_xuid p \<in> get_player_xuid ` set ps"
      by (rule imageI)
    with nin have ne: "get_player_xuid p \<noteq> get_player_xuid a"
      by auto
    have l: "thirst_of ?s (get_player_xuid p) = thirst_of st (get_player_xuid p)"
      using ne by (simp add: tick_player_level thirst_of_after_decay)
    have f: "player_moving_flags ?s (get_player_xuid p) = player_moving_flags st (get_player_xuid p)"
      using ne nr by (simp add: tick_player_flags)
    have dc: "decay_for ?s (get_player_xuid p) = decay_for st (get_player_xuid p)"
      by (rule decay_for_cong) (simp_all add: f)
    have "thirst_of (after_decay ?s p) (get_player_xuid p)
          = thirst_of (after_decay st p) (get_player_xuid p)"
      by (simp add: thirst_of_after_decay l dc)
    with Cons.IH [OF d ntr mem, of ?s] nr show ?thesis
      by (simp add: tick_players_Cons del: tick_players.simps)
  qed
qed

subsection \<open>The whole tick\<close>

lemma tick_eq:
  "tick st ps now =
     (let r = tick_players (st\<lparr>thirst_damage_timer := thirst_damage_timer st + 1\<rparr>) ps now
      in if fst r \<noteq> None then safe_log (snd r) ''error'' ''thirst timer error''
         else if thirst_damage_timer st + 1 \<ge> 10 then (snd r)\<lparr>thirst_damage_timer := 0\<rparr>
         else snd r)"
proof -
  obtain e s where r: "tick_players (st\<lparr>thirst_damage_timer := thirst_damage_timer st + 1\<rparr>) ps now = (e, s)"
    by (cases "tick_players (st\<lparr>thirst_damage_timer := thirst_damage_timer st + 1\<rparr>) ps now")
  have "thirst_damage_timer (snd (tick_players (st\<lparr>thirst_damage_timer := thirst_damage_timer st + 1\<rparr>) ps now))
        = thirst_damage_timer st + 1"
    by simp
  then have t: "thirst_damage_timer s = thirst_damage_timer st + 1"
    by (simp add: r)
  show ?thesis
    by (cases e) (simp_all add: tick_def Let_def r t)
qed

lemma thirst_of_safe_log [simp]: "thirst_of (safe_log st l m) y = thirst_of st y"
  by (simp add: safe_log_def)

lemma tick_level:
  "thirst_of (tick st ps now) y
   = thirst_of (snd (tick_players (st\<lparr>thirst_damage_timer := thirst_damage_timer st + 1\<rparr>) ps now)) y"
  by (simp add: tick_eq Let_def)

lemma tick_flags:
  "player_moving_flags (tick st ps now)
   = player_moving_flags (snd (tick_players (st\<lparr>thirst_damage_timer := thirst_damage_timer st + 1\<rparr>) ps now))"
  by (simp add: tick_eq Let_def safe_log_def)



lemma decay_for_timer [simp]: "decay_for (st\<lparr>thirst_damage_timer := t\<rparr>) x = decay_for st x"
  by (simp add: decay_for_def moving_flag_of_def)

text \<open>The level and the flag of an online player after a tick in which no tip raises.\<close>

lemma tick_member:
  assumes "distinct (map get_player_xuid ps)" "no_tip_raises ps" "p \<in> set ps"
  shows "thirst_of (tick st ps now) (get_player_xuid p) =
           (if decay_for st (get_player_xuid p) > 0
            then clamp_thirst (thirst_of st (get_player_xuid p) - decay_for st (get_player_xuid p))
            else thirst_of st (get_player_xuid p))"
    and "player_moving_flags (tick st ps now) (get_player_xuid p) = None"
  using tick_players_member [OF assms, of "st\<lparr>thirst_damage_timer := thirst_damage_timer st + 1\<rparr>" now]
  by (simp_all add: tick_level tick_flags thirst_of_after_decay)






subsection \<open>Movement signals\<close>



lemma thirst_of_on_player_move [simp]: "thirst_of (on_player_move st p) y = thirst_of st y"
  by (simp add: on_player_move_def)




subsection \<open>Damage commands in a tick\<close>

lemma damage_calls_safe_log [simp]:
  "damage_calls n (calls (safe_log st l m)) = damage_calls n (calls st)"
  by (simp add: safe_log_def damage_calls_def)















subsection \<open>A step that raises\<close>

lemma tick_players_append:
  "tick_players st (ps @ qs) now =
     (if fst (tick_players st ps now) = None then tick_players (snd (tick_players st ps now)) qs now
      else tick_players st ps now)"
proof (induction ps arbitrary: st)
  case Nil
  show ?case by simp
next
  case (Cons a ps)
  from Cons.IH [of "snd (tick_player st a now)"] show ?case
    by (simp add: tick_players_Cons del: tick_players.simps)
qed

lemma tick_players_raise:
  assumes "fst (tick_players st pre now) = None"
    and "decay_raises (snd (tick_players st pre now)) a"
  shows "tick_players st (pre @ a # rest) now
         = (Some HostError, after_decay (snd (tick_players st pre now)) a)"
  using assms by (simp add: tick_players_append tick_players_Cons del: tick_players.simps)

lemma tick_raise:
  assumes "fst (tick_players (st\<lparr>thirst_damage_timer := thirst_damage_timer st + 1\<rparr>) pre now) = None"
    and "decay_raises (snd (tick_players (st\<lparr>thirst_damage_timer := thirst_damage_timer st + 1\<rparr>) pre now)) a"
  shows "tick st (pre @ a # rest) now
         = safe_log (after_decay (snd (tick_players
               (st\<lparr>thirst_damage_timer := thirst_damage_timer st + 1\<rparr>) pre now)) a)
             ''error'' ''thirst timer error''"
  using tick_players_raise [OF assms, of rest] by (simp add: tick_eq Let_def)

subsection \<open>Records once saved stay\<close>

lemma persist_keeps_records:
  "records_for (player_thirst st) y \<noteq> [] \<or> y = get_player_xuid p \<Longrightarrow>
   records_for (player_thirst (persist_player_thirst st p now)) y \<noteq> []"
proof (cases "query_one (player_thirst st) (get_player_xuid p)")
  case None
  assume "records_for (player_thirst st) y \<noteq> [] \<or> y = get_player_xuid p"
  with None show ?thesis
    by (auto simp: persist_absent records_for_append) (simp add: records_for_def)
next
  case (Some r)
  then have ne: "records_for (player_thirst st) (get_player_xuid p) \<noteq> []"
    using query_one_None_iff [of "player_thirst st" "get_player_xuid p"] by simp
  assume "records_for (player_thirst st) y \<noteq> [] \<or> y = get_player_xuid p"
  with Some ne show ?thesis
    by (cases "y = get_player_xuid p")
       (auto simp: persist_present records_for_update_same records_for_update_other)
qed

lemma tick_player_keeps_records:
  "records_for (player_thirst st) y \<noteq> [] \<or> (y = get_player_xuid p \<and> \<not> decay_raises st p) \<Longrightarrow>
   records_for (player_thirst (snd (tick_player st p now))) y \<noteq> []"
  using persist_keeps_records [of "after_decay st p" y p now]
  by (auto simp: tick_player_table)

lemma tick_players_keeps_records:
  "records_for (player_thirst st) y \<noteq> [] \<Longrightarrow>
   records_for (player_thirst (snd (tick_players st ps now))) y \<noteq> []"
proof (induction ps arbitrary: st)
  case Nil
  then show ?case by simp
next
  case (Cons a ps)
  then have "records_for (player_thirst (snd (tick_player st a now))) y \<noteq> []"
    by (simp add: tick_player_keeps_records)
  then have "records_for (player_thirst (snd (tick_players (snd (tick_player st a now)) ps now))) y \<noteq> []"
    by (rule Cons.IH)
  with Cons.prems show ?case
    by (simp add: tick_players_Cons del: tick_players.simps)
qed

lemma tick_players_saves_all:
  "no_tip_raises ps \<Longrightarrow> q \<in> set ps \<Longrightarrow>
   records_for (player_thirst (snd (tick_players st ps now))) (get_player_xuid q) \<noteq> []"
proof (induction ps arbitrary: st)
  case Nil
  then show ?case by simp
next
  case (Cons a ps)
  have nr: "\<not> decay_raises st a" and ntr: "no_tip_raises ps"
    using Cons.prems(1) by (simp_all add: no_tip_raises_def decay_raises_def)
  let ?s = "snd (tick_player st a now)"
  show ?case
  proof (cases "q = a")
    case True
    with nr have "records_for (player_thirst ?s) (get_player_xuid q) \<noteq> []"
      by (simp add: tick_player_keeps_records)
    then have "records_for (player_thirst (snd (tick_players ?s ps now))) (get_player_xuid q) \<noteq> []"
      by (rule tick_players_keeps_records)
    with nr show ?thesis
      by (simp add: tick_players_Cons del: tick_players.simps)
  next
    case False
    with Cons.prems(2) have "q \<in> set ps" by simp
    from Cons.IH [OF ntr this, of ?s] nr show ?thesis
      by (simp add: tick_players_Cons del: tick_players.simps)
  qed
qed

lemma tick_players_clears_xuid:
  "no_tip_raises ps \<Longrightarrow> x \<in> get_player_xuid ` set ps \<Longrightarrow>
   player_moving_flags (snd (tick_players st ps now)) x = None"
proof (induction ps arbitrary: st)
  case Nil
  then show ?case by simp
next
  case (Cons a ps)
  have nr: "\<not> decay_raises st a" and ntr: "no_tip_raises ps"
    using Cons.prems(1) by (simp_all add: no_tip_raises_def decay_raises_def)
  let ?s = "snd (tick_player st a now)"
  show ?case
  proof (cases "x \<in> get_player_xuid ` set ps")
    case True
    from Cons.IH [OF ntr this, of ?s] nr show ?thesis
      by (simp add: tick_players_Cons del: tick_players.simps)
  next
    case False
    with Cons.prems(2) have xa: "x = get_player_xuid a" by simp
    from tick_players_other [OF False, of ?s now] nr xa show ?thesis
      by (simp add: tick_players_Cons tick_player_flags del: tick_players.simps)
  qed
qed

lemma tick_players_clears_all:
  "no_tip_raises ps \<Longrightarrow> q \<in> set ps \<Longrightarrow>
   player_moving_flags (snd (tick_players st ps now)) (get_player_xuid q) = None"
  by (rule tick_players_clears_xuid) simp_all

lemma damage_callback_message_raises:
  "message_raises p \<Longrightarrow> alive p \<Longrightarrow> thirst_of st (get_player_xuid p) \<le> 0 \<Longrightarrow>
   apply_thirst_damage st p
   = safe_log (apply_buff_to_player st p ''instant_damage'' 1 1) ''error'' ''apply thirst damage error''"
  by (auto simp: apply_thirst_damage_def alive_def Let_def split: option.splits)


lemma tick_table:
  "player_thirst (tick st ps now)
   = player_thirst (snd (tick_players (st\<lparr>thirst_damage_timer := thirst_damage_timer st + 1\<rparr>) ps now))"
  by (simp add: tick_eq Let_def safe_log_def)

text \<open>
  What the handlers of the tick contain. An exception inside the damage callback is caught there and
  logged, and the loop goes on: when no tip raises, the loop over the online players ends
  without an exception, every online player has been saved and has its flag cleared,
  whatever \<open>send_message\<close> does. An exception from the tip sent while an entity's decay
  is applied is caught by the handler around the whole tick body: the tick ends there
  with one logged error, the players after that entity are not processed (the result is
  the same with or without them), and the counter keeps its incremented value. The tick
  itself never raises.
\<close>

theorem tick_failure_containment:
  "(no_tip_raises ps \<longrightarrow>
      fst (tick_players (st\<lparr>thirst_damage_timer := thirst_damage_timer st + 1\<rparr>) ps now) = None
      \<and> (\<forall>q \<in> set ps.
            records_for (player_thirst (tick st ps now)) (get_player_xuid q) \<noteq> []
            \<and> player_moving_flags (tick st ps now) (get_player_xuid q) = None))
   \<and> (message_raises p \<and> alive p \<and> thirst_of st (get_player_xuid p) \<le> 0 \<longrightarrow>
        apply_thirst_damage st p
        = safe_log (apply_buff_to_player st p ''instant_damage'' 1 1)
            ''error'' ''apply thirst damage error'')
   \<and> (fst (tick_players (st\<lparr>thirst_damage_timer := thirst_damage_timer st + 1\<rparr>) pre now) = None
        \<and> decay_raises
            (snd (tick_players (st\<lparr>thirst_damage_timer := thirst_damage_timer st + 1\<rparr>) pre now)) a
      \<longrightarrow>
        tick st (pre @ a # rest) now
        = safe_log (after_decay
              (snd (tick_players (st\<lparr>thirst_damage_timer := thirst_damage_timer st + 1\<rparr>) pre now)) a)
            ''error'' ''thirst timer error''
        \<and> tick st (pre @ a # rest) now = tick st (pre @ [a]) now
        \<and> thirst_damage_timer (tick st (pre @ a # rest) now) = thirst_damage_timer st + 1)"
proof -
  let ?st0 = "st\<lparr>thirst_damage_timer := thirst_damage_timer st + 1\<rparr>"
  have a: "fst (tick_players ?st0 ps now) = None
      \<and> (\<forall>q \<in> set ps.
            records_for (player_thirst (tick st ps now)) (get_player_xuid q) \<noteq> []
            \<and> player_moving_flags (tick st ps now) (get_player_xuid q) = None)"
    if "no_tip_raises ps"
    using that
    by (simp add: tick_players_ok tick_table tick_flags tick_players_saves_all
          tick_players_clears_all)
  have b: "apply_thirst_damage st p
        = safe_log (apply_buff_to_player st p ''instant_damage'' 1 1)
            ''error'' ''apply thirst damage error''"
    if "message_raises p \<and> alive p \<and> thirst_of st (get_player_xuid p) \<le> 0"
    using that by (simp add: damage_callback_message_raises)
  have c: "tick st (pre @ a # rest) now
        = safe_log (after_decay (snd (tick_players ?st0 pre now)) a) ''error'' ''thirst timer error''
        \<and> tick st (pre @ a # rest) now = tick st (pre @ [a]) now
        \<and> thirst_damage_timer (tick st (pre @ a # rest) now) = thirst_damage_timer st + 1"
    if h: "fst (tick_players ?st0 pre now) = None \<and> decay_raises (snd (tick_players ?st0 pre now)) a"
  proof -
    from h have h1: "fst (tick_players ?st0 pre now) = None"
      and h2: "decay_raises (snd (tick_players ?st0 pre now)) a"
      by simp_all
    have e: "tick st (pre @ a # rest) now
        = safe_log (after_decay (snd (tick_players ?st0 pre now)) a) ''error'' ''thirst timer error''"
      for rest
      using h1 h2 by (rule tick_raise)
    have "thirst_damage_timer (safe_log (after_decay (snd (tick_players ?st0 pre now)) a)
             ''error'' ''thirst timer error'') = thirst_damage_timer st + 1"
      by (simp add: safe_log_def)
    with e [of rest] e [of "[]"] show ?thesis
      by simp
  qed
  from a b c show ?thesis by blast
qed

lemma alex_raises:
  "decay_raises ((init_plugin empty_settings [])\<lparr>thirst_damage_timer := 1\<rparr>) alex"
proof -
  let ?i = "init_plugin empty_settings []"
  have x: "get_player_xuid alex = ''a1b2''" and t: "tip_raises alex"
    by (simp_all add: alex_def get_player_xuid_def)
  have d: "decay_for ?i ''a1b2'' = 1 / 10"
    by (simp add: decay_for_def moving_flag_of_def init_plugin_def)
  have l: "thirst_of ?i ''a1b2'' = 100"
    by (simp add: thirst_of_def init_plugin_def)
  have ad: "thirst_of (after_decay (?i\<lparr>thirst_damage_timer := 1\<rparr>) alex) ''a1b2'' = 999 / 10"
    by (simp add: thirst_of_after_decay x d l clamp_thirst_def)
  show ?thesis
    by (simp add: decay_raises_def x t d l ad)
qed

text \<open>
  C4. An exception raised while one entity is processed must not abort the processing of
  the entities after it in that tick. It does: the tip to Alex raises in the first step of
  a tick over Alex and Steve, and Steve keeps the level 100 and gets no record, while a
  tick over Steve alone brings Steve to 99.9 and saves it.
\<close>

theorem tick_aborts_remaining_players:
  "thirst_of (tick (init_plugin empty_settings []) [alex, steve] ''2025-01-01T00:00:00'')
       (get_player_xuid steve) = 100
   \<and> records_for (player_thirst (tick (init_plugin empty_settings []) [alex, steve]
         ''2025-01-01T00:00:00'')) (get_player_xuid steve) = []
   \<and> thirst_of (tick (init_plugin empty_settings []) [steve] ''2025-01-01T00:00:00'')
       (get_player_xuid steve) = 999 / 10
   \<and> records_for (player_thirst (tick (init_plugin empty_settings []) [steve]
         ''2025-01-01T00:00:00'')) (get_player_xuid steve) \<noteq> []"
proof -
  let ?i = "init_plugin empty_settings []"
  let ?now = "''2025-01-01T00:00:00''"
  have t0: "?i\<lparr>thirst_damage_timer := thirst_damage_timer ?i + 1\<rparr> = ?i\<lparr>thirst_damage_timer := 1\<rparr>"
    by (simp add: init_plugin_def)
  have xs: "get_player_xuid steve = ''2535400000000001''" and xa: "get_player_xuid alex = ''a1b2''"
    by (simp_all add: steve_def alex_def get_player_xuid_def)
  have ok: "no_tip_raises [steve]" "distinct (map get_player_xuid [steve])"
    by (simp_all add: no_tip_raises_def steve_def)
  have e: "tick ?i ([] @ alex # [steve]) ?now
           = safe_log (after_decay (snd (tick_players (?i\<lparr>thirst_damage_timer := thirst_damage_timer ?i + 1\<rparr>) [] ?now)) alex)
               ''error'' ''thirst timer error''"
    by (rule tick_raise) (simp_all add: t0 alex_raises)
  then have e': "tick ?i [alex, steve] ?now
           = safe_log (after_decay (?i\<lparr>thirst_damage_timer := 1\<rparr>) alex) ''error'' ''thirst timer error''"
    by (simp add: t0)
  have a: "thirst_of (tick ?i [alex, steve] ?now) (get_player_xuid steve) = 100"
    by (simp add: e' thirst_of_after_decay xs xa) (simp add: thirst_of_def init_plugin_def)
  have b: "records_for (player_thirst (tick ?i [alex, steve] ?now)) (get_player_xuid steve) = []"
    by (simp add: e' safe_log_def) (simp add: init_plugin_def records_for_def)
  have c: "thirst_of (tick ?i [steve] ?now) (get_player_xuid steve) = 999 / 10"
    using tick_member(1) [OF ok(2,1), of steve ?i ?now]
    by (simp add: xs decay_for_def moving_flag_of_def init_plugin_def thirst_of_def clamp_thirst_def)
  have d: "records_for (player_thirst (tick ?i [steve] ?now)) (get_player_xuid steve) \<noteq> []"
    using tick_players_saves_all [OF ok(1), of steve] by (simp add: tick_table)
  from a b c d show ?thesis by blast
qed

theorem tick_failure_containment_witness:
  "no_tip_raises [zoe, steve]
   \<and> message_raises zoe \<and> alive zoe
   \<and> thirst_of ((init_plugin empty_settings [])\<lparr>player_xuid_to_thirst := [''2535400000000002'' \<mapsto> 0]\<rparr>)
        (get_player_xuid zoe) \<le> 0
   \<and> records_for (player_thirst (tick ((init_plugin empty_settings [])
          \<lparr>player_xuid_to_thirst := [''2535400000000002'' \<mapsto> 0]\<rparr>) [zoe, steve]
          ''2025-01-01T00:00:00'')) (get_player_xuid steve) \<noteq> []
   \<and> decay_raises (snd (tick_players ((init_plugin empty_settings [])
          \<lparr>player_xuid_to_thirst := [''2535400000000002'' \<mapsto> 0]\<rparr>
          \<lparr>thirst_damage_timer := thirst_damage_timer ((init_plugin empty_settings [])
          \<lparr>player_xuid_to_thirst := [''2535400000000002'' \<mapsto> 0]\<rparr>) + 1\<rparr>) []
          ''2025-01-01T00:00:00'')) alex
   \<and> tick ((init_plugin empty_settings [])
          \<lparr>player_xuid_to_thirst := [''2535400000000002'' \<mapsto> 0]\<rparr>) ([] @ alex # [steve])
          ''2025-01-01T00:00:00''
       = tick ((init_plugin empty_settings [])
          \<lparr>player_xuid_to_thirst := [''2535400000000002'' \<mapsto> 0]\<rparr>) ([] @ [alex])
          ''2025-01-01T00:00:00''
   \<and> thirst_damage_timer (tick ((init_plugin empty_settings [])
          \<lparr>player_xuid_to_thirst := [''2535400000000002'' \<mapsto> 0]\<rparr>) ([] @ alex # [steve])
          ''2025-01-01T00:00:00'') = 1
   \<and> apply_thirst_damage ((init_plugin empty_settings [])
          \<lparr>player_xuid_to_thirst := [''2535400000000002'' \<mapsto> 0]\<rparr>) zoe
       = safe_log (apply_buff_to_player ((init_plugin empty_settings [])
          \<lparr>player_xuid_to_thirst := [''2535400000000002'' \<mapsto> 0]\<rparr>) zoe ''instant_damage'' 1 1)
           ''error'' ''apply thirst damage error''"
proof -
  let ?d = "(init_plugin empty_settings [])\<lparr>player_xuid_to_thirst := [''2535400000000002'' \<mapsto> 0]\<rparr>"
  let ?now = "''2025-01-01T00:00:00''"
  have ok: "no_tip_raises [zoe, steve]"
    by (simp add: no_tip_raises_def zoe_def steve_def)
  have z: "message_raises zoe" "alive zoe" "thirst_of ?d (get_player_xuid zoe) \<le> 0"
    by (simp_all add: zoe_def alive_def get_player_xuid_def thirst_of_def init_plugin_def)
  have x: "get_player_xuid alex = ''a1b2''" and t: "tip_raises alex"
    by (simp_all add: alex_def get_player_xuid_def)
  have dc: "decay_for ?d ''a1b2'' = 1 / 10"
    by (simp add: decay_for_def moving_flag_of_def init_plugin_def)
  have l: "thirst_of ?d ''a1b2'' = 100"
    by (simp add: thirst_of_def init_plugin_def)
  have i0: "thirst_damage_timer (init_plugin empty_settings []) = 0"
    by (simp add: init_plugin_def)
  have ad: "thirst_of (after_decay (?d\<lparr>thirst_damage_timer := 1\<rparr>) alex) ''a1b2'' = 999 / 10"
    by (simp add: thirst_of_after_decay x dc l clamp_thirst_def)
  have r: "decay_raises (snd (tick_players (?d\<lparr>thirst_damage_timer := thirst_damage_timer ?d + 1\<rparr>)
        [] ?now)) alex"
    by (simp add: decay_raises_def x t dc l i0 ad)
  have f: "fst (tick_players (?d\<lparr>thirst_damage_timer := thirst_damage_timer ?d + 1\<rparr>) [] ?now) = None"
    by simp
  have t1: "thirst_damage_timer ?d + 1 = 1"
    by (simp add: init_plugin_def)
  note w = tick_failure_containment [of "[zoe, steve]" ?d ?now zoe "[]" alex "[steve]"]
  from w ok have w1: "records_for (player_thirst (tick ?d [zoe, steve] ?now)) (get_player_xuid steve) \<noteq> []"
    by simp
  from w f r have w2: "tick ?d ([] @ alex # [steve]) ?now = tick ?d ([] @ [alex]) ?now"
    and w3: "thirst_damage_timer (tick ?d ([] @ alex # [steve]) ?now) = thirst_damage_timer ?d + 1"
    by blast+
  from w z have w4: "apply_thirst_damage ?d zoe
       = safe_log (apply_buff_to_player ?d zoe ''instant_damage'' 1 1)
           ''error'' ''apply thirst damage error''"
    by blast
  from ok z w1 r w2 w3 w4 t1 show ?thesis
    by simp
qed

section \<open>The level stays in range\<close>

subsection \<open>Levels in range\<close>

lemma levels_in_rangeI:
  assumes "0 \<le> thirst_initial s" "thirst_initial s \<le> 100"
    and "\<And>x. 0 \<le> thirst_of s x \<and> thirst_of s x \<le> 100"
    and "\<And>r. r \<in> set (player_thirst s) \<Longrightarrow> 0 \<le> row_thirst r \<and> row_thirst r \<le> 100"
  shows "levels_in_range s"
  using assms by (simp add: levels_in_range_def)

lemma levels_in_range_cong:
  assumes "levels_in_range s" and "thirst_initial t = thirst_initial s"
    and "player_xuid_to_thirst t = player_xuid_to_thirst s"
    and "player_thirst t = player_thirst s"
  shows "levels_in_range t"
proof -
  have "thirst_of t x = thirst_of s x" for x
    by (rule thirst_of_cong) (simp_all add: assms)
  with assms show ?thesis
    by (simp add: levels_in_range_def)
qed

lemma levels_in_range_delta:
  assumes "levels_in_range st"
  shows "levels_in_range (snd (apply_thirst_delta st p d))"
proof (rule levels_in_rangeI)
  show "0 \<le> thirst_initial (snd (apply_thirst_delta st p d))"
    "thirst_initial (snd (apply_thirst_delta st p d)) \<le> 100"
    using assms by (simp_all add: levels_in_range_def)
  show "0 \<le> thirst_of (snd (apply_thirst_delta st p d)) x
        \<and> thirst_of (snd (apply_thirst_delta st p d)) x \<le> 100" for x
    using assms by (simp add: thirst_of_delta levels_in_range_def clamp_range)
  show "0 \<le> row_thirst r \<and> row_thirst r \<le> 100"
    if "r \<in> set (player_thirst (snd (apply_thirst_delta st p d)))" for r
    using assms that by (simp add: levels_in_range_def)
qed

lemma levels_in_range_after_decay:
  "levels_in_range st \<Longrightarrow> levels_in_range (after_decay st p)"
  by (simp add: after_decay_def levels_in_range_delta)

lemma levels_in_range_persist:
  assumes "levels_in_range st"
  shows "levels_in_range (persist_player_thirst st p now)"
proof (rule levels_in_rangeI)
  show "0 \<le> thirst_initial (persist_player_thirst st p now)"
    "thirst_initial (persist_player_thirst st p now) \<le> 100"
    using assms by (simp_all add: levels_in_range_def)
  show "0 \<le> thirst_of (persist_player_thirst st p now) x
        \<and> thirst_of (persist_player_thirst st p now) x \<le> 100" for x
    using assms by (simp add: levels_in_range_def)
  show "0 \<le> row_thirst r \<and> row_thirst r \<le> 100"
    if "r \<in> set (player_thirst (persist_player_thirst st p now))" for r
  proof (cases "query_one (player_thirst st) (get_player_xuid p)")
    case None
    with that assms show ?thesis
      by (auto simp: persist_absent levels_in_range_def)
  next
    case (Some r0)
    with that assms show ?thesis
      by (auto simp: persist_present update_rows_def levels_in_range_def split: if_splits)
  qed
qed

lemma levels_in_range_tick_player:
  assumes "levels_in_range st"
  shows "levels_in_range (snd (tick_player st p now))"
proof (cases "decay_raises st p")
  case True
  with assms show ?thesis
    by (simp add: tick_player_eq levels_in_range_after_decay)
next
  case False
  have "levels_in_range ((after_damage st p)\<lparr>player_moving_flags :=
                   (player_moving_flags st)(get_player_xuid p := None)\<rparr>)"
    by (rule levels_in_range_cong [OF levels_in_range_after_decay [OF assms, of p]]) simp_all
  with False show ?thesis
    by (simp add: tick_player_eq levels_in_range_persist)
qed

lemma levels_in_range_tick_players:
  "levels_in_range st \<Longrightarrow> levels_in_range (snd (tick_players st ps now))"
proof (induction ps arbitrary: st)
  case Nil
  then show ?case by simp
next
  case (Cons a ps)
  from Cons.prems have "levels_in_range (snd (tick_player st a now))"
    by (rule levels_in_range_tick_player)
  then have "levels_in_range (snd (tick_players (snd (tick_player st a now)) ps now))"
    by (rule Cons.IH)
  with Cons.prems show ?case
    by (simp add: tick_players_Cons levels_in_range_after_decay del: tick_players.simps)
qed

lemma levels_in_range_tick:
  assumes "levels_in_range st"
  shows "levels_in_range (tick st ps now)"
proof -
  let ?st0 = "st\<lparr>thirst_damage_timer := thirst_damage_timer st + 1\<rparr>"
  have "levels_in_range ?st0"
    by (rule levels_in_range_cong [OF assms]) simp_all
  then have r: "levels_in_range (snd (tick_players ?st0 ps now))"
    by (rule levels_in_range_tick_players)
  show ?thesis
    by (rule levels_in_range_cong [OF r]) (simp_all add: tick_eq Let_def safe_log_def)
qed

lemma apply_buffs_fields [simp]:
  "player_xuid_to_thirst (apply_buffs st p bs) = player_xuid_to_thirst st"
  "thirst_initial (apply_buffs st p bs) = thirst_initial st"
  "player_thirst (apply_buffs st p bs) = player_thirst st"
  by (induction bs arbitrary: st; simp add: apply_buffs_def apply_buff_to_player_def split: prod.splits)+

lemma levels_in_range_consume:
  assumes "levels_in_range st"
  shows "levels_in_range (on_player_item_consume st p cfg now)"
proof (cases cfg)
  case None
  with assms show ?thesis by (simp add: on_player_item_consume_def)
next
  case (Some c)
  obtain d bf where c: "c = (d, bf)" by (cases c)
  obtain r s where e: "apply_thirst_delta st p d = (r, s)" by (cases "apply_thirst_delta st p d")
  from levels_in_range_delta [OF assms, of p d] e have s: "levels_in_range s" by simp
  show ?thesis
  proof (cases r)
    case (Inl x)
    have "levels_in_range (safe_log s ''error'' ''consume event error'')"
      by (rule levels_in_range_cong [OF s]) (simp_all add: safe_log_def)
    with Some c e Inl show ?thesis by (simp add: on_player_item_consume_def)
  next
    case (Inr v)
    have "levels_in_range (case bf of
                             Buffs_empty \<Rightarrow> s
                           | Buffs_list bs \<Rightarrow> apply_buffs s p bs
                           | Buffs_invalid bs \<Rightarrow>
                               safe_log (apply_buffs s p bs) ''error'' ''apply buffs error'')"
      by (rule levels_in_range_cong [OF s]) (simp_all add: safe_log_def split: buffs_field.splits)
    then have "levels_in_range (persist_player_thirst (case bf of
                             Buffs_empty \<Rightarrow> s
                           | Buffs_list bs \<Rightarrow> apply_buffs s p bs
                           | Buffs_invalid bs \<Rightarrow>
                               safe_log (apply_buffs s p bs) ''error'' ''apply buffs error'') p now)"
      by (rule levels_in_range_persist)
    with Some c e Inr show ?thesis by (simp add: on_player_item_consume_def Let_def)
  qed
qed

lemma levels_in_range_death:
  assumes "levels_in_range st"
  shows "levels_in_range (on_actor_death st p now)"
proof -
  let ?s1 = "st\<lparr>player_xuid_to_thirst := (player_xuid_to_thirst st)(get_player_xuid p \<mapsto> thirst_initial st)\<rparr>"
  have "levels_in_range ?s1"
  proof (rule levels_in_rangeI)
    show "0 \<le> thirst_of ?s1 x \<and> thirst_of ?s1 x \<le> 100" for x
      using assms by (auto simp: levels_in_range_def thirst_of_def split: option.splits)
  qed (use assms in \<open>simp_all add: levels_in_range_def\<close>)
  then have p: "levels_in_range (persist_player_thirst ?s1 p now)"
    by (rule levels_in_range_persist)
  show ?thesis
    by (rule levels_in_range_cong [OF p]) (simp_all add: on_actor_death_def Let_def safe_log_def)
qed

lemma levels_in_range_join:
  assumes "levels_in_range st"
  shows "levels_in_range (on_player_join st p now)"
proof (cases "query_one (player_thirst st) (get_player_xuid p)")
  case None
  show ?thesis
  proof (rule levels_in_rangeI)
    show "0 \<le> thirst_of (on_player_join st p now) x \<and> thirst_of (on_player_join st p now) x \<le> 100" for x
      using assms None
      by (auto simp: on_player_join_def load_absent levels_in_range_def thirst_of_def split: option.splits)
  qed (use assms None in \<open>auto simp: on_player_join_def load_absent levels_in_range_def\<close>)
next
  case (Some row)
  then have "row \<in> set (player_thirst st)"
    by (simp add: query_one_Some_xuid)
  with assms have rr: "0 \<le> row_thirst row" "row_thirst row \<le> 100"
    by (simp_all add: levels_in_range_def)
  show ?thesis
  proof (rule levels_in_rangeI)
    show "0 \<le> thirst_of (on_player_join st p now) x \<and> thirst_of (on_player_join st p now) x \<le> 100" for x
      using assms Some rr
      by (auto simp: on_player_join_def load_present levels_in_range_def thirst_of_def split: option.splits)
  qed (use assms Some in \<open>auto simp: on_player_join_def load_present levels_in_range_def\<close>)
qed

lemma levels_in_range_event:
  "levels_in_range st \<Longrightarrow> levels_in_range (apply_event st ev)"
proof (cases ev)
  case (Move p)
  assume "levels_in_range st"
  then have "levels_in_range (on_player_move st p)"
    by (rule levels_in_range_cong) (simp_all add: on_player_move_def)
  with Move show ?thesis by simp
qed (simp_all add: levels_in_range_tick levels_in_range_consume levels_in_range_death
       levels_in_range_join levels_in_range_persist on_player_quit_def)

lemma levels_in_range_run:
  "levels_in_range st \<Longrightarrow> levels_in_range (run st evs)"
  unfolding run_def
  by (induction evs arbitrary: st) (simp_all add: levels_in_range_event)


lemma delta_in_range:
  "0 \<le> thirst_of (snd (apply_thirst_delta st p d)) (get_player_xuid p)
   \<and> thirst_of (snd (apply_thirst_delta st p d)) (get_player_xuid p) \<le> 100"
  by (simp add: thirst_of_delta clamp_range)

lemma delta_down_up:
  "thirst_of (snd (apply_thirst_delta (snd (apply_thirst_delta st p (- 1000))) p 1000))
     (get_player_xuid p) = 100"
  by (simp add: thirst_of_delta clamp_thirst_def)

text \<open>
  Which writes are clamped. Every write through \<open>_apply_thirst_delta\<close> is clamped: the
  level it stores is in \<open>[0, 100]\<close> whatever the state and the delta, and a delta of -1000
  followed by one of +1000 leaves exactly 100. The death reset and the load on attach
  store the configured initial level, or the level of the durable record, as it is. So
  when the configured initial level and the levels in memory and in the table are in
  \<open>[0, 100]\<close>, they stay there through every sequence of ticks, consumptions, deaths,
  joins, quits and movement signals.
\<close>

theorem thirst_levels_stay_in_range:
  "(levels_in_range st \<longrightarrow>
      levels_in_range (run st evs)
      \<and> 0 \<le> thirst_of (run st evs) x \<and> thirst_of (run st evs) x \<le> 100)
   \<and> 0 \<le> thirst_of (snd (apply_thirst_delta st p delta)) (get_player_xuid p)
   \<and> thirst_of (snd (apply_thirst_delta st p delta)) (get_player_xuid p) \<le> 100
   \<and> thirst_of (snd (apply_thirst_delta (snd (apply_thirst_delta st p (- 1000))) p 1000))
         (get_player_xuid p) = 100"
proof -
  have "levels_in_range (run st evs)
      \<and> 0 \<le> thirst_of (run st evs) x \<and> thirst_of (run st evs) x \<le> 100"
    if "levels_in_range st"
  proof -
    from that have "levels_in_range (run st evs)"
      by (rule levels_in_range_run)
    then show ?thesis
      by (simp add: levels_in_range_def)
  qed
  with delta_in_range [of st p delta] delta_down_up [of st p] show ?thesis
    by blast
qed

section \<open>Loading the settings\<close>

subsection \<open>The setting store\<close>

lemma GetSetting_result:
  "fst (GetSetting sm k) = (if blank sm k then None else stored sm k)"
  by (auto simp: GetSetting_def Let_def blank_def stored_def AList.update_conv' split: option.splits)

lemma GetSetting_present:
  "stored sm k \<noteq> None \<Longrightarrow> snd (GetSetting sm k) = sm"
  by (auto simp: GetSetting_def Let_def stored_def)

lemma stored_GetSetting:
  "stored (snd (GetSetting sm k)) k' = (if k' = k \<and> stored sm k = None then Some '''' else stored sm k')"
  by (simp add: GetSetting_def Let_def stored_def AList.update_conv')

lemma stored_SetSetting:
  "stored (SetSetting sm k v) k' = (if k' = k then Some v else stored sm k')"
  by (simp add: SetSetting_def Let_def stored_def AList.update_conv')

subsection \<open>One setting at a time\<close>

lemma load_decay_blank:
  assumes "blank (settings st) ''thirst_decay_per_second''"
  shows "load_decay parse st =
     (None, st\<lparr>settings := SetSetting (snd (GetSetting (settings st) ''thirst_decay_per_second''))
                               ''thirst_decay_per_second'' ''0.1'',
               thirst_decay_per_second := 1 / 10\<rparr>)"
  using assms GetSetting_result [of "settings st" "''thirst_decay_per_second''"]
  by (cases "GetSetting (settings st) ''thirst_decay_per_second''")
     (simp add: load_decay_def)

lemma load_decay_text:
  assumes "stored (settings st) ''thirst_decay_per_second'' = Some s" and "s \<noteq> ''''"
  shows "load_decay parse st =
     (case parse s of None \<Rightarrow> (Some ValueError, st)
      | Some v \<Rightarrow> (None, st\<lparr>thirst_decay_per_second := max 0 v\<rparr>))"
  using assms GetSetting_result [of "settings st" "''thirst_decay_per_second''"]
    GetSetting_present [of "settings st" "''thirst_decay_per_second''"]
  by (cases "GetSetting (settings st) ''thirst_decay_per_second''")
     (simp add: load_decay_def blank_def split: option.splits)

lemma load_multiplier_blank:
  assumes "blank (settings st) ''thirst_moving_multiplier''"
  shows "load_multiplier parse st =
     (None, st\<lparr>settings := SetSetting (snd (GetSetting (settings st) ''thirst_moving_multiplier''))
                               ''thirst_moving_multiplier'' ''2.0'',
               thirst_moving_multiplier := 2\<rparr>)"
  using assms GetSetting_result [of "settings st" "''thirst_moving_multiplier''"]
  by (cases "GetSetting (settings st) ''thirst_moving_multiplier''")
     (simp add: load_multiplier_def)

lemma load_multiplier_text:
  assumes "stored (settings st) ''thirst_moving_multiplier'' = Some s" and "s \<noteq> ''''"
  shows "load_multiplier parse st =
     (case parse s of None \<Rightarrow> (Some ValueError, st)
      | Some v \<Rightarrow> (None, st\<lparr>thirst_moving_multiplier := max 1 v\<rparr>))"
  using assms GetSetting_result [of "settings st" "''thirst_moving_multiplier''"]
    GetSetting_present [of "settings st" "''thirst_moving_multiplier''"]
  by (cases "GetSetting (settings st) ''thirst_moving_multiplier''")
     (simp add: load_multiplier_def blank_def split: option.splits)

lemma load_initial_blank:
  assumes "blank (settings st) ''thirst_initial''"
  shows "load_initial parse st =
     (None, st\<lparr>settings := SetSetting (snd (GetSetting (settings st) ''thirst_initial''))
                               ''thirst_initial'' ''100.0'',
               thirst_initial := 100\<rparr>)"
  using assms GetSetting_result [of "settings st" "''thirst_initial''"]
  by (cases "GetSetting (settings st) ''thirst_initial''")
     (simp add: load_initial_def)

lemma load_initial_text:
  assumes "stored (settings st) ''thirst_initial'' = Some s" and "s \<noteq> ''''"
  shows "load_initial parse st =
     (case parse s of None \<Rightarrow> (Some ValueError, st)
      | Some v \<Rightarrow> (None, st\<lparr>thirst_initial := v\<rparr>))"
  using assms GetSetting_result [of "settings st" "''thirst_initial''"]
    GetSetting_present [of "settings st" "''thirst_initial''"]
  by (cases "GetSetting (settings st) ''thirst_initial''")
     (simp add: load_initial_def blank_def split: option.splits)


subsection \<open>What each block does\<close>

lemma fst_load_decay:
  "fst (load_decay parse st) = (if parses parse (settings st) ''thirst_decay_per_second'' then None else Some ValueError)"
proof (cases "blank (settings st) ''thirst_decay_per_second''")
  case True
  then show ?thesis
    by (auto simp: load_decay_blank parses_def blank_def)
next
  case False
  then obtain s where s: "stored (settings st) ''thirst_decay_per_second'' = Some s" "s \<noteq> []"
    by (auto simp: blank_def)
  then show ?thesis
    by (simp add: load_decay_text parses_def split: option.splits)
qed

lemma load_decay_raise:
  "\<not> parses parse (settings st) ''thirst_decay_per_second'' \<Longrightarrow> snd (load_decay parse st) = st"
  by (auto simp: parses_def load_decay_text split: option.splits)

lemma load_decay_stored_own:
  "stored (settings (snd (load_decay parse st))) ''thirst_decay_per_second''
   = (if blank (settings st) ''thirst_decay_per_second'' then Some ''0.1'' else stored (settings st) ''thirst_decay_per_second'')"
proof (cases "blank (settings st) ''thirst_decay_per_second''")
  case True
  then show ?thesis
    by (simp add: load_decay_blank stored_SetSetting)
next
  case False
  then obtain s where s: "stored (settings st) ''thirst_decay_per_second'' = Some s" "s \<noteq> []"
    by (auto simp: blank_def)
  with False show ?thesis
    by (simp add: load_decay_text split: option.splits)
qed

lemma load_decay_stored_other:
  "k \<noteq> ''thirst_decay_per_second'' \<Longrightarrow>
   stored (settings (snd (load_decay parse st))) k = stored (settings st) k"
proof (cases "blank (settings st) ''thirst_decay_per_second''")
  case True
  assume "k \<noteq> ''thirst_decay_per_second''"
  with True show ?thesis
    by (simp add: load_decay_blank stored_SetSetting stored_GetSetting)
next
  case False
  then obtain s where s: "stored (settings st) ''thirst_decay_per_second'' = Some s" "s \<noteq> []"
    by (auto simp: blank_def)
  then show ?thesis
    by (simp add: load_decay_text split: option.splits)
qed

lemma load_decay_value:
  "thirst_decay_per_second (snd (load_decay parse st))
   = (if blank (settings st) ''thirst_decay_per_second'' then 1 / 10
      else case parse (the (stored (settings st) ''thirst_decay_per_second'')) of
             None \<Rightarrow> thirst_decay_per_second st
           | Some v \<Rightarrow> max 0 v)"
proof (cases "blank (settings st) ''thirst_decay_per_second''")
  case True
  then show ?thesis
    by (simp add: load_decay_blank)
next
  case False
  then obtain s where s: "stored (settings st) ''thirst_decay_per_second'' = Some s" "s \<noteq> []"
    by (auto simp: blank_def)
  with False show ?thesis
    by (simp add: load_decay_text split: option.splits)
qed

lemma load_decay_others:
  "thirst_moving_multiplier (snd (load_decay parse st)) = thirst_moving_multiplier st
   \<and> thirst_initial (snd (load_decay parse st)) = thirst_initial st
   \<and> calls (snd (load_decay parse st)) = calls st"
proof (cases "blank (settings st) ''thirst_decay_per_second''")
  case True
  then show ?thesis
    by (simp add: load_decay_blank)
next
  case False
  then obtain s where s: "stored (settings st) ''thirst_decay_per_second'' = Some s" "s \<noteq> []"
    by (auto simp: blank_def)
  then show ?thesis
    by (simp add: load_decay_text split: option.splits)
qed

lemma fst_load_multiplier:
  "fst (load_multiplier parse st) = (if parses parse (settings st) ''thirst_moving_multiplier'' then None else Some ValueError)"
proof (cases "blank (settings st) ''thirst_moving_multiplier''")
  case True
  then show ?thesis
    by (auto simp: load_multiplier_blank parses_def blank_def)
next
  case False
  then obtain s where s: "stored (settings st) ''thirst_moving_multiplier'' = Some s" "s \<noteq> []"
    by (auto simp: blank_def)
  then show ?thesis
    by (simp add: load_multiplier_text parses_def split: option.splits)
qed

lemma load_multiplier_raise:
  "\<not> parses parse (settings st) ''thirst_moving_multiplier'' \<Longrightarrow> snd (load_multiplier parse st) = st"
  by (auto simp: parses_def load_multiplier_text split: option.splits)

lemma load_multiplier_stored_own:
  "stored (settings (snd (load_multiplier parse st))) ''thirst_moving_multiplier''
   = (if blank (settings st) ''thirst_moving_multiplier'' then Some ''2.0'' else stored (settings st) ''thirst_moving_multiplier'')"
proof (cases "blank (settings st) ''thirst_moving_multiplier''")
  case True
  then show ?thesis
    by (simp add: load_multiplier_blank stored_SetSetting)
next
  case False
  then obtain s where s: "stored (settings st) ''thirst_moving_multiplier'' = Some s" "s \<noteq> []"
    by (auto simp: blank_def)
  with False show ?thesis
    by (simp add: load_multiplier_text split: option.splits)
qed

lemma load_multiplier_stored_other:
  "k \<noteq> ''thirst_moving_multiplier'' \<Longrightarrow>
   stored (settings (snd (load_multiplier parse st))) k = stored (settings st) k"
proof (cases "blank (settings st) ''thirst_moving_multiplier''")
  case True
  assume "k \<noteq> ''thirst_moving_multiplier''"
  with True show ?thesis
    by (simp add: load_multiplier_blank stored_SetSetting stored_GetSetting)
next
  case False
  then obtain s where s: "stored (settings st) ''thirst_moving_multiplier'' = Some s" "s \<noteq> []"
    by (auto simp: blank_def)
  then show ?thesis
    by (simp add: load_multiplier_text split: option.splits)
qed

lemma load_multiplier_value:
  "thirst_moving_multiplier (snd (load_multiplier parse st))
   = (if blank (settings st) ''thirst_moving_multiplier'' then 2
      else case parse (the (stored (settings st) ''thirst_moving_multiplier'')) of
             None \<Rightarrow> thirst_moving_multiplier st
           | Some v \<Rightarrow> max 1 v)"
proof (cases "blank (settings st) ''thirst_moving_multiplier''")
  case True
  then show ?thesis
    by (simp add: load_multiplier_blank)
next
  case False
  then obtain s where s: "stored (settings st) ''thirst_moving_multiplier'' = Some s" "s \<noteq> []"
    by (auto simp: blank_def)
  with False show ?thesis
    by (simp add: load_multiplier_text split: option.splits)
qed

lemma load_multiplier_others:
  "thirst_decay_per_second (snd (load_multiplier parse st)) = thirst_decay_per_second st
   \<and> thirst_initial (snd (load_multiplier parse st)) = thirst_initial st
   \<and> calls (snd (load_multiplier parse st)) = calls st"
proof (cases "blank (settings st) ''thirst_moving_multiplier''")
  case True
  then show ?thesis
    by (simp add: load_multiplier_blank)
next
  case False
  then obtain s where s: "stored (settings st) ''thirst_moving_multiplier'' = Some s" "s \<noteq> []"
    by (auto simp: blank_def)
  then show ?thesis
    by (simp add: load_multiplier_text split: option.splits)
qed

lemma fst_load_initial:
  "fst (load_initial parse st) = (if parses parse (settings st) ''thirst_initial'' then None else Some ValueError)"
proof (cases "blank (settings st) ''thirst_initial''")
  case True
  then show ?thesis
    by (auto simp: load_initial_blank parses_def blank_def)
next
  case False
  then obtain s where s: "stored (settings st) ''thirst_initial'' = Some s" "s \<noteq> []"
    by (auto simp: blank_def)
  then show ?thesis
    by (simp add: load_initial_text parses_def split: option.splits)
qed

lemma load_initial_raise:
  "\<not> parses parse (settings st) ''thirst_initial'' \<Longrightarrow> snd (load_initial parse st) = st"
  by (auto simp: parses_def load_initial_text split: option.splits)

lemma load_initial_stored_own:
  "stored (settings (snd (load_initial parse st))) ''thirst_initial''
   = (if blank (settings st) ''thirst_initial'' then Some ''100.0'' else stored (settings st) ''thirst_initial'')"
proof (cases "blank (settings st) ''thirst_initial''")
  case True
  then show ?thesis
    by (simp add: load_initial_blank stored_SetSetting)
next
  case False
  then obtain s where s: "stored (settings st) ''thirst_initial'' = Some s" "s \<noteq> []"
    by (auto simp: blank_def)
  with False show ?thesis
    by (simp add: load_initial_text split: option.splits)
qed

lemma load_initial_stored_other:
  "k \<noteq> ''thirst_initial'' \<Longrightarrow>
   stored (settings (snd (load_initial parse st))) k = stored (settings st) k"
proof (cases "blank (settings st) ''thirst_initial''")
  case True
  assume "k \<noteq> ''thirst_initial''"
  with True show ?thesis
    by (simp add: load_initial_blank stored_SetSetting stored_GetSetting)
next
  case False
  then obtain s where s: "stored (settings st) ''thirst_initial'' = Some s" "s \<noteq> []"
    by (auto simp: blank_def)
  then show ?thesis
    by (simp add: load_initial_text split: option.splits)
qed

lemma load_initial_value:
  "thirst_initial (snd (load_initial parse st))
   = (if blank (settings st) ''thirst_initial'' then 100
      else case parse (the (stored (settings st) ''thirst_initial'')) of
             None \<Rightarrow> thirst_initial st
           | Some v \<Rightarrow> v)"
proof (cases "blank (settings st) ''thirst_initial''")
  case True
  then show ?thesis
    by (simp add: load_initial_blank)
next
  case False
  then obtain s where s: "stored (settings st) ''thirst_initial'' = Some s" "s \<noteq> []"
    by (auto simp: blank_def)
  with False show ?thesis
    by (simp add: load_initial_text split: option.splits)
qed

lemma load_initial_others:
  "thirst_decay_per_second (snd (load_initial parse st)) = thirst_decay_per_second st
   \<and> thirst_moving_multiplier (snd (load_initial parse st)) = thirst_moving_multiplier st
   \<and> calls (snd (load_initial parse st)) = calls st"
proof (cases "blank (settings st) ''thirst_initial''")
  case True
  then show ?thesis
    by (simp add: load_initial_blank)
next
  case False
  then obtain s where s: "stored (settings st) ''thirst_initial'' = Some s" "s \<noteq> []"
    by (auto simp: blank_def)
  then show ?thesis
    by (simp add: load_initial_text split: option.splits)
qed

subsection \<open>The three blocks in sequence\<close>

lemma parses_cong: "stored sm k = stored sm' k \<Longrightarrow> parses parse sm k = parses parse sm' k"
  by (simp add: parses_def)

lemma blank_cong: "stored sm k = stored sm' k \<Longrightarrow> blank sm k = blank sm' k"
  by (simp add: blank_def)

lemma load_thirst_settings_eq:
  "load_thirst_settings parse st =
     (if \<not> parses parse (settings st) ''thirst_decay_per_second''
      then safe_log st ''error'' ''load thirst settings error''
      else if \<not> parses parse (settings st) ''thirst_moving_multiplier''
      then safe_log (snd (load_decay parse st)) ''error'' ''load thirst settings error''
      else if \<not> parses parse (settings st) ''thirst_initial''
      then safe_log (snd (load_multiplier parse (snd (load_decay parse st))))
             ''error'' ''load thirst settings error''
      else snd (load_initial parse (snd (load_multiplier parse (snd (load_decay parse st))))))"
proof -
  obtain e1 t1 where l1: "load_decay parse st = (e1, t1)" by (cases "load_decay parse st")
  obtain e2 t2 where l2: "load_multiplier parse t1 = (e2, t2)" by (cases "load_multiplier parse t1")
  obtain e3 t3 where l3: "load_initial parse t2 = (e3, t3)" by (cases "load_initial parse t2")
  have st1: "stored (settings t1) k = stored (settings st) k" if "k \<noteq> ''thirst_decay_per_second''" for k
    using load_decay_stored_other [OF that, of parse st] by (simp add: l1)
  have st2: "stored (settings t2) k = stored (settings t1) k" if "k \<noteq> ''thirst_moving_multiplier''" for k
    using load_multiplier_stored_other [OF that, of parse t1] by (simp add: l2)
  have p2: "parses parse (settings t1) ''thirst_moving_multiplier''
            = parses parse (settings st) ''thirst_moving_multiplier''"
    by (rule parses_cong) (simp add: st1)
  have p3: "parses parse (settings t2) ''thirst_initial''
            = parses parse (settings st) ''thirst_initial''"
    by (rule parses_cong) (simp add: st1 st2)
  have e1: "e1 = (if parses parse (settings st) ''thirst_decay_per_second'' then None else Some ValueError)"
    using fst_load_decay [of parse st] by (simp add: l1)
  have e2: "e2 = (if parses parse (settings st) ''thirst_moving_multiplier'' then None else Some ValueError)"
    using fst_load_multiplier [of parse t1] by (simp add: l2 p2)
  have e3: "e3 = (if parses parse (settings st) ''thirst_initial'' then None else Some ValueError)"
    using fst_load_initial [of parse t2] by (simp add: l3 p3)
  have r1: "\<not> parses parse (settings st) ''thirst_decay_per_second'' \<Longrightarrow> t1 = st"
    using load_decay_raise [of parse st] by (simp add: l1)
  have r2: "\<not> parses parse (settings st) ''thirst_moving_multiplier'' \<Longrightarrow> t2 = t1"
    using load_multiplier_raise [of parse t1] by (simp add: l2 p2)
  have r3: "\<not> parses parse (settings st) ''thirst_initial'' \<Longrightarrow> t3 = t2"
    using load_initial_raise [of parse t2] by (simp add: l3 p3)
  have "load_thirst_settings parse st =
     (if \<not> parses parse (settings st) ''thirst_decay_per_second''
      then safe_log st ''error'' ''load thirst settings error''
      else if \<not> parses parse (settings st) ''thirst_moving_multiplier''
      then safe_log t1 ''error'' ''load thirst settings error''
      else if \<not> parses parse (settings st) ''thirst_initial''
      then safe_log t2 ''error'' ''load thirst settings error''
      else t3)"
    using r1 r2 r3 by (simp add: load_thirst_settings_def l1 l2 l3 e1 e2 e3)
  moreover have "snd (load_decay parse st) = t1"
    by (simp add: l1)
  moreover have "snd (load_multiplier parse (snd (load_decay parse st))) = t2"
    by (simp add: l1 l2)
  moreover have "snd (load_initial parse (snd (load_multiplier parse (snd (load_decay parse st))))) = t3"
    by (simp add: l1 l2 l3)
  ultimately show ?thesis
    by simp
qed

lemma blank_parses: "blank sm k \<Longrightarrow> parses parse sm k"
  by (auto simp: blank_def parses_def)

lemma safe_log_fields [simp]:
  "thirst_decay_per_second (safe_log st l m) = thirst_decay_per_second st"
  "thirst_moving_multiplier (safe_log st l m) = thirst_moving_multiplier st"
  "thirst_initial (safe_log st l m) = thirst_initial st"
  "settings (safe_log st l m) = settings st"
  "calls (safe_log st l m) = calls st @ [Log l m]"
  by (simp_all add: safe_log_def)

lemma loaded_decay:
  "thirst_decay_per_second (load_thirst_settings parse st)
   = (if parses parse (settings st) ''thirst_decay_per_second''
      then thirst_decay_per_second (snd (load_decay parse st))
      else thirst_decay_per_second st)"
  by (simp add: load_thirst_settings_eq load_multiplier_others load_initial_others)

lemma loaded_multiplier:
  "thirst_moving_multiplier (load_thirst_settings parse st)
   = (if parses parse (settings st) ''thirst_decay_per_second''
         \<and> parses parse (settings st) ''thirst_moving_multiplier''
      then thirst_moving_multiplier (snd (load_multiplier parse (snd (load_decay parse st))))
      else thirst_moving_multiplier st)"
  by (simp add: load_thirst_settings_eq load_decay_others load_initial_others)

lemma loaded_initial:
  "thirst_initial (load_thirst_settings parse st)
   = (if parses parse (settings st) ''thirst_decay_per_second''
         \<and> parses parse (settings st) ''thirst_moving_multiplier''
         \<and> parses parse (settings st) ''thirst_initial''
      then thirst_initial (snd (load_initial parse (snd (load_multiplier parse (snd (load_decay parse st))))))
      else thirst_initial st)"
  by (simp add: load_thirst_settings_eq load_decay_others load_multiplier_others)

lemma loaded_stored_decay:
  "stored (settings (load_thirst_settings parse st)) ''thirst_decay_per_second''
   = (if parses parse (settings st) ''thirst_decay_per_second''
      then stored (settings (snd (load_decay parse st))) ''thirst_decay_per_second''
      else stored (settings st) ''thirst_decay_per_second'')"
  by (simp add: load_thirst_settings_eq load_multiplier_stored_other load_initial_stored_other)

lemma loaded_stored_multiplier:
  "stored (settings (load_thirst_settings parse st)) ''thirst_moving_multiplier''
   = (if parses parse (settings st) ''thirst_decay_per_second''
         \<and> parses parse (settings st) ''thirst_moving_multiplier''
      then stored (settings (snd (load_multiplier parse (snd (load_decay parse st)))))
             ''thirst_moving_multiplier''
      else stored (settings st) ''thirst_moving_multiplier'')"
  by (simp add: load_thirst_settings_eq load_decay_stored_other load_initial_stored_other)

lemma loaded_stored_initial:
  "stored (settings (load_thirst_settings parse st)) ''thirst_initial''
   = (if parses parse (settings st) ''thirst_decay_per_second''
         \<and> parses parse (settings st) ''thirst_moving_multiplier''
         \<and> parses parse (settings st) ''thirst_initial''
      then stored (settings (snd (load_initial parse (snd (load_multiplier parse (snd (load_decay parse st)))))))
             ''thirst_initial''
      else stored (settings st) ''thirst_initial'')"
  by (simp add: load_thirst_settings_eq load_decay_stored_other load_multiplier_stored_other)

lemma blank_after_decay:
  "blank (settings (snd (load_decay parse st))) ''thirst_moving_multiplier''
   = blank (settings st) ''thirst_moving_multiplier''"
  by (rule blank_cong) (simp add: load_decay_stored_other)

lemma blank_after_multiplier:
  "blank (settings (snd (load_multiplier parse (snd (load_decay parse st))))) ''thirst_initial''
   = blank (settings st) ''thirst_initial''"
  by (rule blank_cong) (simp add: load_decay_stored_other load_multiplier_stored_other)

lemma stored_multiplier_after_decay:
  "stored (settings (snd (load_decay parse st))) ''thirst_moving_multiplier''
   = stored (settings st) ''thirst_moving_multiplier''"
  by (simp add: load_decay_stored_other)

lemma loaded_decay_nonneg:
  "0 \<le> thirst_decay_per_second st \<Longrightarrow> 0 \<le> thirst_decay_per_second (load_thirst_settings parse st)"
  by (simp add: loaded_decay load_decay_value split: option.splits)

lemma loaded_multiplier_ge1:
  "1 \<le> thirst_moving_multiplier st \<Longrightarrow> 1 \<le> thirst_moving_multiplier (load_thirst_settings parse st)"
  by (simp add: loaded_multiplier load_multiplier_value load_decay_others split: option.splits)

lemma stored_settings_of: "stored (settings_of kvs) k = map_of kvs k"
  by (simp add: stored_def settings_of_def)

lemma settings_init [simp]: "settings (init_plugin sm rows) = sm"
  by (simp add: init_plugin_def)

text \<open>
  C8, as the code has it. The three settings are read in order: decay per second, moving
  multiplier, initial level. A setting that is missing or stored empty gets its default
  (0.1, 2.0, 100.0), which is written back to the store, provided the settings before it
  were read through. A text that does not parse is not replaced: loading stops there
  with one logged error, the store keeps the text, and that setting and the ones after
  it keep the values they had in memory. A decay text that parses is taken as
  \<open>max 0\<close> of its value and a multiplier text as \<open>max 1\<close>; a decay per second at least 0
  and a multiplier at least 1 are kept by every load.
\<close>

theorem load_thirst_settings_recovery:
  "(0 \<le> thirst_decay_per_second st \<longrightarrow>
      0 \<le> thirst_decay_per_second (load_thirst_settings parse st))
   \<and> (1 \<le> thirst_moving_multiplier st \<longrightarrow>
      1 \<le> thirst_moving_multiplier (load_thirst_settings parse st))
   \<and> (blank (settings st) ''thirst_decay_per_second'' \<longrightarrow>
      thirst_decay_per_second (load_thirst_settings parse st) = 1 / 10
      \<and> stored (settings (load_thirst_settings parse st)) ''thirst_decay_per_second'' = Some ''0.1'')
   \<and> (parses parse (settings st) ''thirst_decay_per_second''
        \<and> blank (settings st) ''thirst_moving_multiplier'' \<longrightarrow>
      thirst_moving_multiplier (load_thirst_settings parse st) = 2
      \<and> stored (settings (load_thirst_settings parse st)) ''thirst_moving_multiplier'' = Some ''2.0'')
   \<and> (parses parse (settings st) ''thirst_decay_per_second''
        \<and> parses parse (settings st) ''thirst_moving_multiplier''
        \<and> blank (settings st) ''thirst_initial'' \<longrightarrow>
      thirst_initial (load_thirst_settings parse st) = 100
      \<and> stored (settings (load_thirst_settings parse st)) ''thirst_initial'' = Some ''100.0'')
   \<and> (\<not> parses parse (settings st) ''thirst_decay_per_second'' \<longrightarrow>
      load_thirst_settings parse st = safe_log st ''error'' ''load thirst settings error'')
   \<and> (parses parse (settings st) ''thirst_decay_per_second''
        \<and> \<not> parses parse (settings st) ''thirst_moving_multiplier'' \<longrightarrow>
      thirst_moving_multiplier (load_thirst_settings parse st) = thirst_moving_multiplier st
      \<and> thirst_initial (load_thirst_settings parse st) = thirst_initial st
      \<and> stored (settings (load_thirst_settings parse st)) ''thirst_moving_multiplier''
          = stored (settings st) ''thirst_moving_multiplier''
      \<and> stored (settings (load_thirst_settings parse st)) ''thirst_initial''
          = stored (settings st) ''thirst_initial''
      \<and> calls (load_thirst_settings parse st)
          = calls st @ [Log ''error'' ''load thirst settings error''])
   \<and> (parses parse (settings st) ''thirst_decay_per_second''
        \<and> parses parse (settings st) ''thirst_moving_multiplier''
        \<and> \<not> parses parse (settings st) ''thirst_initial'' \<longrightarrow>
      thirst_initial (load_thirst_settings parse st) = thirst_initial st
      \<and> stored (settings (load_thirst_settings parse st)) ''thirst_initial''
          = stored (settings st) ''thirst_initial''
      \<and> calls (load_thirst_settings parse st)
          = calls st @ [Log ''error'' ''load thirst settings error''])
   \<and> (stored (settings st) ''thirst_decay_per_second'' = Some s \<and> s \<noteq> [] \<and> parse s = Some v \<longrightarrow>
      thirst_decay_per_second (load_thirst_settings parse st) = max 0 v)
   \<and> (parses parse (settings st) ''thirst_decay_per_second''
        \<and> stored (settings st) ''thirst_moving_multiplier'' = Some s \<and> s \<noteq> [] \<and> parse s = Some v \<longrightarrow>
      thirst_moving_multiplier (load_thirst_settings parse st) = max 1 v)"
proof -
  have a: "0 \<le> thirst_decay_per_second st \<longrightarrow>
      0 \<le> thirst_decay_per_second (load_thirst_settings parse st)"
    by (simp add: loaded_decay_nonneg)
  have b: "1 \<le> thirst_moving_multiplier st \<longrightarrow>
      1 \<le> thirst_moving_multiplier (load_thirst_settings parse st)"
    by (simp add: loaded_multiplier_ge1)
  have c: "blank (settings st) ''thirst_decay_per_second'' \<longrightarrow>
      thirst_decay_per_second (load_thirst_settings parse st) = 1 / 10
      \<and> stored (settings (load_thirst_settings parse st)) ''thirst_decay_per_second'' = Some ''0.1''"
    by (simp add: loaded_decay loaded_stored_decay load_decay_value load_decay_stored_own
          blank_parses)
  have d: "parses parse (settings st) ''thirst_decay_per_second''
        \<and> blank (settings st) ''thirst_moving_multiplier'' \<longrightarrow>
      thirst_moving_multiplier (load_thirst_settings parse st) = 2
      \<and> stored (settings (load_thirst_settings parse st)) ''thirst_moving_multiplier'' = Some ''2.0''"
    by (simp add: loaded_multiplier loaded_stored_multiplier load_multiplier_value
          load_multiplier_stored_own blank_after_decay blank_parses)
  have e: "parses parse (settings st) ''thirst_decay_per_second''
        \<and> parses parse (settings st) ''thirst_moving_multiplier''
        \<and> blank (settings st) ''thirst_initial'' \<longrightarrow>
      thirst_initial (load_thirst_settings parse st) = 100
      \<and> stored (settings (load_thirst_settings parse st)) ''thirst_initial'' = Some ''100.0''"
    by (simp add: loaded_initial loaded_stored_initial load_initial_value
          load_initial_stored_own blank_after_multiplier blank_parses)
  have f: "\<not> parses parse (settings st) ''thirst_decay_per_second'' \<longrightarrow>
      load_thirst_settings parse st = safe_log st ''error'' ''load thirst settings error''"
    by (simp add: load_thirst_settings_eq)
  have g: "parses parse (settings st) ''thirst_decay_per_second''
        \<and> \<not> parses parse (settings st) ''thirst_moving_multiplier'' \<longrightarrow>
      thirst_moving_multiplier (load_thirst_settings parse st) = thirst_moving_multiplier st
      \<and> thirst_initial (load_thirst_settings parse st) = thirst_initial st
      \<and> stored (settings (load_thirst_settings parse st)) ''thirst_moving_multiplier''
          = stored (settings st) ''thirst_moving_multiplier''
      \<and> stored (settings (load_thirst_settings parse st)) ''thirst_initial''
          = stored (settings st) ''thirst_initial''
      \<and> calls (load_thirst_settings parse st)
          = calls st @ [Log ''error'' ''load thirst settings error'']"
    by (simp add: loaded_multiplier loaded_initial loaded_stored_multiplier loaded_stored_initial)
       (simp add: load_thirst_settings_eq load_decay_others)
  have h: "parses parse (settings st) ''thirst_decay_per_second''
        \<and> parses parse (settings st) ''thirst_moving_multiplier''
        \<and> \<not> parses parse (settings st) ''thirst_initial'' \<longrightarrow>
      thirst_initial (load_thirst_settings parse st) = thirst_initial st
      \<and> stored (settings (load_thirst_settings parse st)) ''thirst_initial''
          = stored (settings st) ''thirst_initial''
      \<and> calls (load_thirst_settings parse st)
          = calls st @ [Log ''error'' ''load thirst settings error'']"
    by (simp add: loaded_initial loaded_stored_initial)
       (simp add: load_thirst_settings_eq load_decay_others load_multiplier_others)
  have i: "stored (settings st) ''thirst_decay_per_second'' = Some s \<and> s \<noteq> [] \<and> parse s = Some v \<longrightarrow>
      thirst_decay_per_second (load_thirst_settings parse st) = max 0 v"
    by (simp add: loaded_decay load_decay_value blank_def parses_def)
  have j: "parses parse (settings st) ''thirst_decay_per_second''
        \<and> stored (settings st) ''thirst_moving_multiplier'' = Some s \<and> s \<noteq> [] \<and> parse s = Some v \<longrightarrow>
      thirst_moving_multiplier (load_thirst_settings parse st) = max 1 v"
    by (simp add: loaded_multiplier load_multiplier_value blank_after_decay
          stored_multiplier_after_decay blank_def parses_def)
  from a b c d e f g h i j show ?thesis
    by blast
qed

theorem load_thirst_settings_recovery_witness:
  "thirst_decay_per_second (load_thirst_settings float_table (init_plugin (settings_of []) [])) = 1 / 10
   \<and> stored (settings (load_thirst_settings float_table (init_plugin (settings_of []) [])))
        ''thirst_decay_per_second'' = Some ''0.1''
   \<and> thirst_moving_multiplier (load_thirst_settings float_table (init_plugin (settings_of []) [])) = 2
   \<and> stored (settings (load_thirst_settings float_table (init_plugin (settings_of []) [])))
        ''thirst_moving_multiplier'' = Some ''2.0''
   \<and> thirst_initial (load_thirst_settings float_table (init_plugin (settings_of []) [])) = 100
   \<and> stored (settings (load_thirst_settings float_table (init_plugin (settings_of []) [])))
        ''thirst_initial'' = Some ''100.0''
   \<and> load_thirst_settings float_table
         (init_plugin (settings_of [(''thirst_decay_per_second'', ''abc'')]) [])
       = safe_log (init_plugin (settings_of [(''thirst_decay_per_second'', ''abc'')]) [])
           ''error'' ''load thirst settings error''
   \<and> stored (settings (load_thirst_settings float_table
         (init_plugin (settings_of [(''thirst_moving_multiplier'', ''abc'')]) [])))
        ''thirst_moving_multiplier'' = Some ''abc''
   \<and> stored (settings (load_thirst_settings float_table
         (init_plugin (settings_of [(''thirst_initial'', ''abc'')]) [])))
        ''thirst_initial'' = Some ''abc''
   \<and> thirst_decay_per_second (load_thirst_settings float_table
         (init_plugin (settings_of [(''thirst_decay_per_second'', ''0.5''),
                                    (''thirst_moving_multiplier'', ''3.0'')]) [])) = 1 / 2
   \<and> thirst_moving_multiplier (load_thirst_settings float_table
         (init_plugin (settings_of [(''thirst_decay_per_second'', ''0.5''),
                                    (''thirst_moving_multiplier'', ''3.0'')]) [])) = 3"
proof -
  let ?e = "init_plugin (settings_of []) []"
  let ?b1 = "init_plugin (settings_of [(''thirst_decay_per_second'', ''abc'')]) []"
  let ?b2 = "init_plugin (settings_of [(''thirst_moving_multiplier'', ''abc'')]) []"
  let ?b3 = "init_plugin (settings_of [(''thirst_initial'', ''abc'')]) []"
  let ?g = "init_plugin (settings_of [(''thirst_decay_per_second'', ''0.5''),
                                    (''thirst_moving_multiplier'', ''3.0'')]) []"
  have inv: "0 \<le> thirst_decay_per_second ?e" "1 \<le> thirst_moving_multiplier ?e"
    by (simp_all add: init_plugin_def)
  have e: "blank (settings ?e) ''thirst_decay_per_second''"
    "blank (settings ?e) ''thirst_moving_multiplier''"
    "blank (settings ?e) ''thirst_initial''"
    "parses float_table (settings ?e) ''thirst_decay_per_second''"
    "parses float_table (settings ?e) ''thirst_moving_multiplier''"
    by (simp_all add: blank_def parses_def stored_settings_of)
  have b1: "\<not> parses float_table (settings ?b1) ''thirst_decay_per_second''"
    by (simp add: parses_def stored_settings_of float_table_def)
  have b2: "parses float_table (settings ?b2) ''thirst_decay_per_second''"
    "\<not> parses float_table (settings ?b2) ''thirst_moving_multiplier''"
    "stored (settings ?b2) ''thirst_moving_multiplier'' = Some ''abc''"
    by (simp_all add: parses_def stored_settings_of float_table_def)
  have b3: "parses float_table (settings ?b3) ''thirst_decay_per_second''"
    "parses float_table (settings ?b3) ''thirst_moving_multiplier''"
    "\<not> parses float_table (settings ?b3) ''thirst_initial''"
    "stored (settings ?b3) ''thirst_initial'' = Some ''abc''"
    by (simp_all add: parses_def stored_settings_of float_table_def)
  have g: "stored (settings ?g) ''thirst_decay_per_second'' = Some ''0.5''"
    "float_table ''0.5'' = Some (1 / 2)"
    "parses float_table (settings ?g) ''thirst_decay_per_second''"
    "stored (settings ?g) ''thirst_moving_multiplier'' = Some ''3.0''"
    "float_table ''3.0'' = Some 3"
    by (simp_all add: parses_def stored_settings_of float_table_def)
  note we = load_thirst_settings_recovery [of ?e float_table "''0.5''" "1 / 2"]
  note w1 = load_thirst_settings_recovery [of ?b1 float_table "''0.5''" "1 / 2"]
  note w2 = load_thirst_settings_recovery [of ?b2 float_table "''0.5''" "1 / 2"]
  note w3 = load_thirst_settings_recovery [of ?b3 float_table "''0.5''" "1 / 2"]
  note wg = load_thirst_settings_recovery [of ?g float_table "''0.5''" "1 / 2"]
  note wh = load_thirst_settings_recovery [of ?g float_table "''3.0''" 3]
  from we inv e have
    "thirst_decay_per_second (load_thirst_settings float_table ?e) = 1 / 10
     \<and> stored (settings (load_thirst_settings float_table ?e)) ''thirst_decay_per_second'' = Some ''0.1''
     \<and> thirst_moving_multiplier (load_thirst_settings float_table ?e) = 2
     \<and> stored (settings (load_thirst_settings float_table ?e)) ''thirst_moving_multiplier'' = Some ''2.0''
     \<and> thirst_initial (load_thirst_settings float_table ?e) = 100
     \<and> stored (settings (load_thirst_settings float_table ?e)) ''thirst_initial'' = Some ''100.0''"
    by blast
  moreover from w1 b1 have
    "load_thirst_settings float_table ?b1 = safe_log ?b1 ''error'' ''load thirst settings error''"
    by blast
  moreover from w2 b2 have
    "stored (settings (load_thirst_settings float_table ?b2)) ''thirst_moving_multiplier'' = Some ''abc''"
    by simp
  moreover from w3 b3 have
    "stored (settings (load_thirst_settings float_table ?b3)) ''thirst_initial'' = Some ''abc''"
    by simp
  moreover from wg g have
    "thirst_decay_per_second (load_thirst_settings float_table ?g) = 1 / 2"
    by simp
  moreover from wh g have
    "thirst_moving_multiplier (load_thirst_settings float_table ?g) = 3"
    by simp
  ultimately show ?thesis
    by blast
qed

text \<open>
  A store whose decay text is \<open>abc\<close> and whose multiplier text is \<open>3.0\<close>: after loading
  the store still holds \<open>abc\<close>, not the default, and the multiplier in memory is still 2.
  A store whose initial level reads 150: the initial level in memory is 150.
\<close>

theorem load_keeps_unparsable_and_unclamped:
  "stored (settings (load_thirst_settings float_table
       (init_plugin (settings_of [(''thirst_decay_per_second'', ''abc''),
                                  (''thirst_moving_multiplier'', ''3.0'')]) [])))
     ''thirst_decay_per_second'' = Some ''abc''
   \<and> thirst_moving_multiplier (load_thirst_settings float_table
       (init_plugin (settings_of [(''thirst_decay_per_second'', ''abc''),
                                  (''thirst_moving_multiplier'', ''3.0'')]) [])) = 2
   \<and> thirst_initial (load_thirst_settings float_table
       (init_plugin (settings_of [(''thirst_initial'', ''150'')]) [])) = 150
   \<and> \<not> thirst_initial (load_thirst_settings float_table
       (init_plugin (settings_of [(''thirst_initial'', ''150'')]) [])) \<le> 100"
proof -
  let ?b = "init_plugin (settings_of [(''thirst_decay_per_second'', ''abc''),
                                  (''thirst_moving_multiplier'', ''3.0'')]) []"
  let ?h = "init_plugin (settings_of [(''thirst_initial'', ''150'')]) []"
  have b: "\<not> parses float_table (settings ?b) ''thirst_decay_per_second''"
    by (simp add: parses_def stored_settings_of float_table_def)
  then have eq: "load_thirst_settings float_table ?b = safe_log ?b ''error'' ''load thirst settings error''"
    by (simp add: load_thirst_settings_eq)
  have b1: "stored (settings (load_thirst_settings float_table ?b)) ''thirst_decay_per_second'' = Some ''abc''"
    by (simp add: eq stored_settings_of)
  have b2: "thirst_moving_multiplier (load_thirst_settings float_table ?b) = 2"
    by (simp add: eq) (simp add: init_plugin_def)
  have h: "parses float_table (settings ?h) ''thirst_decay_per_second''"
    "parses float_table (settings ?h) ''thirst_moving_multiplier''"
    "parses float_table (settings ?h) ''thirst_initial''"
    "\<not> blank (settings ?h) ''thirst_initial''"
    "stored (settings ?h) ''thirst_initial'' = Some ''150''"
    "float_table ''150'' = Some 150"
    by (simp_all add: parses_def blank_def stored_settings_of float_table_def)
  have h1: "thirst_initial (load_thirst_settings float_table ?h) = 150"
    using h
    by (simp add: loaded_initial load_initial_value blank_after_multiplier
          load_decay_stored_other load_multiplier_stored_other)
  from b1 b2 h1 show ?thesis
    by simp
qed

section \<open>Writes that are not clamped\<close>

lemma death_level:
  "thirst_of (on_actor_death st p now) (get_player_xuid p) = thirst_initial st"
proof -
  have "thirst_of (on_actor_death st p now) (get_player_xuid p)
        = thirst_of (st\<lparr>player_xuid_to_thirst :=
              (player_xuid_to_thirst st)(get_player_xuid p \<mapsto> thirst_initial st)\<rparr>) (get_player_xuid p)"
    by (rule thirst_of_cong) (simp_all add: on_actor_death_def Let_def safe_log_def)
  then show ?thesis
    by (simp add: thirst_of_def)
qed

theorem thirst_levels_stay_in_range_witness:
  "0 \<le> thirst_of (run (init_plugin empty_settings [])
          [Join steve ''2025-01-01T00:00:00'', Move steve, Tick [steve] ''2025-01-01T00:00:01'',
           Consume steve (Some (- 1000, Buffs_empty)) ''2025-01-01T00:00:02'',
           Consume steve (Some (1000, Buffs_empty)) ''2025-01-01T00:00:03'',
           Death steve ''2025-01-01T00:00:04'', Quit steve ''2025-01-01T00:00:05''])
        (get_player_xuid steve)
   \<and> thirst_of (run (init_plugin empty_settings [])
          [Join steve ''2025-01-01T00:00:00'', Move steve, Tick [steve] ''2025-01-01T00:00:01'',
           Consume steve (Some (- 1000, Buffs_empty)) ''2025-01-01T00:00:02'',
           Consume steve (Some (1000, Buffs_empty)) ''2025-01-01T00:00:03'',
           Death steve ''2025-01-01T00:00:04'', Quit steve ''2025-01-01T00:00:05''])
        (get_player_xuid steve) \<le> 100
   \<and> thirst_of (snd (apply_thirst_delta (snd (apply_thirst_delta (init_plugin empty_settings [])
          steve (- 1000))) steve 1000)) (get_player_xuid steve) = 100"
proof -
  have "levels_in_range (init_plugin empty_settings [])"
    by (simp add: levels_in_range_def init_plugin_def thirst_of_def)
  with thirst_levels_stay_in_range [of "init_plugin empty_settings []"
      "[Join steve ''2025-01-01T00:00:00'', Move steve, Tick [steve] ''2025-01-01T00:00:01'',
           Consume steve (Some (- 1000, Buffs_empty)) ''2025-01-01T00:00:02'',
           Consume steve (Some (1000, Buffs_empty)) ''2025-01-01T00:00:03'',
           Death steve ''2025-01-01T00:00:04'', Quit steve ''2025-01-01T00:00:05'']"
      "get_player_xuid steve" steve "- 1000"]
  show ?thesis
    by blast
qed

text \<open>
  C1. The stored level is to be within \<open>[0, 100]\<close> after every write. It is not: a
  settings file with \<open>thirst_initial=150\<close> is loaded as it stands (the two other settings
  are clamped on load, this one is not), and the death reset then stores 150 for the
  player; a first join returns 150 as well.
\<close>

theorem death_reset_writes_unclamped_initial:
  "thirst_of (on_actor_death (load_thirst_settings float_table
       (init_plugin (settings_of [(''thirst_initial'', ''150'')]) [])) steve ''2025-01-01T00:00:00'')
     (get_player_xuid steve) = 150
   \<and> \<not> thirst_of (on_actor_death (load_thirst_settings float_table
       (init_plugin (settings_of [(''thirst_initial'', ''150'')]) [])) steve ''2025-01-01T00:00:00'')
     (get_player_xuid steve) \<le> 100
   \<and> fst (load_player_thirst (load_thirst_settings float_table
       (init_plugin (settings_of [(''thirst_initial'', ''150'')]) [])) steve ''2025-01-01T00:00:00'')
     = 150"
proof -
  let ?h = "init_plugin (settings_of [(''thirst_initial'', ''150'')]) []"
  let ?l = "load_thirst_settings float_table ?h"
  have h: "parses float_table (settings ?h) ''thirst_decay_per_second''"
    "parses float_table (settings ?h) ''thirst_moving_multiplier''"
    "parses float_table (settings ?h) ''thirst_initial''"
    "\<not> blank (settings ?h) ''thirst_initial''"
    "stored (settings ?h) ''thirst_initial'' = Some ''150''"
    "float_table ''150'' = Some 150"
    by (simp_all add: parses_def blank_def stored_settings_of float_table_def)
  have i: "thirst_initial ?l = 150"
    using h
    by (simp add: loaded_initial load_initial_value blank_after_multiplier
          load_decay_stored_other load_multiplier_stored_other)
  have t: "player_thirst ?l = []"
    using h
    by (simp add: load_thirst_settings_eq) (simp add: load_decay_def load_multiplier_def
          load_initial_def Let_def init_plugin_def split: prod.splits option.splits)
  then have q: "query_one (player_thirst ?l) (get_player_xuid steve) = None"
    by (simp add: query_one_def)
  have d: "thirst_of (on_actor_death ?l steve ''2025-01-01T00:00:00'') (get_player_xuid steve) = 150"
    by (simp add: death_level i)
  have j: "fst (load_player_thirst ?l steve ''2025-01-01T00:00:00'') = 150"
    by (simp add: load_absent [OF q] i)
  from d j show ?thesis
    by simp
qed

section \<open>The fallback timer: cancellation\<close>

subsection \<open>Armed Timers\<close>

lemma count_update_drop:
  "i < length ts \<Longrightarrow> ts ! i = Armed \<Longrightarrow> t \<noteq> Armed \<Longrightarrow>
   Suc (length (filter (\<lambda>t. t = Armed) (ts[i := t]))) = length (filter (\<lambda>t. t = Armed) ts)"
proof (induction ts arbitrary: i)
  case Nil
  then show ?case by simp
next
  case (Cons a ts)
  then show ?case by (cases i) auto
qed

lemma count_pos:
  "i < length ts \<Longrightarrow> ts ! i = Armed \<Longrightarrow> 0 < length (filter (\<lambda>t. t = Armed) ts)"
  by (auto simp: length_pos_if_in_set filter_empty_conv dest: nth_mem)

lemma timer_inv_init: "timer_inv arc_timer_init"
  by (simp add: timer_inv_def arc_timer_init_def armed_count_def)

lemma timer_inv_step:
  assumes "timer_inv s" and "step s a = Some s'"
  shows "timer_inv s'"
proof (cases a)
  case (Expire i)
  with assms(2) have en: "i < length (timers s)" "timers s ! i = Armed" "run_pc s = Idle"
    and s': "s' = s\<lparr>timers := (timers s)[i := Fired], firings := firings s + 1, run_pc := In_target\<rparr>"
    by (auto split: if_splits)
  from count_update_drop [OF en(1,2), of Fired] count_pos [OF en(1,2)] assms(1)
  have "armed_count s' = 0"
    by (auto simp: s' armed_count_def timer_inv_def)
  then show ?thesis by (simp add: timer_inv_def)
next
  case Target_returns
  with assms show ?thesis
    by (auto simp: timer_inv_def armed_count_def split: if_splits option.splits)
next
  case Check_stop
  with assms show ?thesis
    by (auto simp: timer_inv_def armed_count_def split: if_splits option.splits)
next
  case Arm
  with assms show ?thesis
    by (auto simp: timer_inv_def armed_count_def nth_append split: if_splits option.splits)
next
  case Set_stop
  with assms show ?thesis
    by (auto simp: timer_inv_def armed_count_def split: if_splits option.splits)
next
  case Cancel_timer
  show ?thesis
  proof (cases "armed_count s = 0")
    case True
    with assms(2) Cancel_timer have "armed_count s' = 0"
      by (auto simp: armed_count_def filter_empty_conv split: if_splits option.splits
               dest: nth_mem)
    then show ?thesis by (simp add: timer_inv_def)
  next
    case False
    with assms(1) obtain i where i: "timer s = Some i" "i < length (timers s)" "timers s ! i = Armed"
      and one: "armed_count s = 1"
      by (auto simp: timer_inv_def split: option.splits)
    with assms(2) Cancel_timer have s': "s' = s\<lparr>timers := (timers s)[i := Cancelled], cancel_pc := Returned\<rparr>"
      by (auto split: if_splits)
    from count_update_drop [OF i(2,3), of Cancelled] one have "armed_count s' = 0"
      by (simp add: s' armed_count_def)
    then show ?thesis by (simp add: timer_inv_def)
  qed
qed

lemma timer_inv_steps:
  "timer_inv s \<Longrightarrow> steps s as = Some s' \<Longrightarrow> timer_inv s'"
proof (induction as arbitrary: s)
  case Nil
  then show ?case by simp
next
  case (Cons a as)
  then obtain s1 where s1: "step s a = Some s1" "steps s1 as = Some s'"
    by (auto split: option.splits)
  from Cons.prems(1) s1(1) have "timer_inv s1" by (rule timer_inv_step)
  with s1(2) show ?case by (rule Cons.IH [rotated])
qed

subsection \<open>After cancel has returned\<close>

lemma cancelled_step:
  assumes "stop s" and "cancel_pc s = Returned" and "step s a = Some s'"
  shows "stop s' \<and> cancel_pc s' = Returned \<and> firings s' + pending s' \<le> firings s + pending s"
proof (cases a)
  case (Expire i)
  with assms(3) have en: "i < length (timers s)" "timers s ! i = Armed" "run_pc s = Idle"
    and s': "s' = s\<lparr>timers := (timers s)[i := Fired], firings := firings s + 1, run_pc := In_target\<rparr>"
    by (auto split: if_splits)
  from count_update_drop [OF en(1,2), of Fired] assms(1,2) en(3) show ?thesis
    by (simp add: s' pending_def armed_count_def)
next
  case Arm
  with assms show ?thesis
    by (auto simp: pending_def armed_count_def split: if_splits)
qed (use assms in \<open>auto simp: pending_def armed_count_def split: if_splits\<close>)

lemma cancelled_steps:
  "stop s \<Longrightarrow> cancel_pc s = Returned \<Longrightarrow> steps s as = Some s' \<Longrightarrow>
   firings s' + pending s' \<le> firings s + pending s"
proof (induction as arbitrary: s)
  case Nil
  then show ?case by simp
next
  case (Cons a as)
  then obtain s1 where s1: "step s a = Some s1" "steps s1 as = Some s'"
    by (auto split: option.splits)
  from cancelled_step [OF Cons.prems(1,2) s1(1)]
  have a: "stop s1" "cancel_pc s1 = Returned" "firings s1 + pending s1 \<le> firings s + pending s"
    by simp_all
  from Cons.IH [OF a(1,2) s1(2)] a(3) show ?case by simp
qed

text \<open>
  Once \<open>cancel\<close> has returned, the target is called at most once more, and not at all
  unless \<open>cancel\<close> ran while a reschedule stood between its stop check and the arming
  of the next Timer.
\<close>

lemma cancel_bounds_firings:
  assumes "steps arc_timer_init before = Some s" and "step s Cancel_timer = Some s'"
    and "steps s' after = Some s''"
  shows "firings s'' \<le> firings s' + (if run_pc s' = At_arm then 1 else 0)"
proof -
  have inv: "timer_inv s"
    using timer_inv_init assms(1) by (rule timer_inv_steps)
  from assms(2) have c: "cancel_pc s = Stop_set" "cancel_pc s' = Returned"
    by (auto split: if_splits option.splits)
  have "stop s"
  proof -
    have "cancel_pc t \<noteq> Not_called \<longrightarrow> stop t" if "steps arc_timer_init as = Some t" for as t
      using that
    proof (induction as arbitrary: t rule: rev_induct)
      case Nil
      then show ?case by (auto simp: arc_timer_init_def)
    next
      case (snoc a as)
      have sp: "steps u (xs @ [x]) = (case steps u xs of None \<Rightarrow> None | Some v \<Rightarrow> step v x)" for u xs x
        by (induction xs arbitrary: u) (auto split: option.splits)
      from snoc.prems obtain m where m: "steps arc_timer_init as = Some m" "step m a = Some t"
        by (auto simp: sp split: option.splits)
      from snoc.IH [OF m(1)] m(2) show ?case
        by (cases a) (auto split: if_splits option.splits)
    qed
    with assms(1) c(1) show ?thesis by auto
  qed
  with assms(2) have st: "stop s'"
    by (auto split: if_splits option.splits)
  have "timer_inv s'" using inv assms(2) by (rule timer_inv_step)
  have zero: "armed_count s' = 0"
  proof (cases "armed_count s = 0")
    case True
    with assms(2) show ?thesis
      by (auto simp: armed_count_def filter_empty_conv split: if_splits option.splits dest: nth_mem)
  next
    case False
    with inv obtain i where i: "timer s = Some i" "i < length (timers s)" "timers s ! i = Armed"
      and one: "armed_count s = 1"
      by (auto simp: timer_inv_def split: option.splits)
    with assms(2) have s': "s' = s\<lparr>timers := (timers s)[i := Cancelled], cancel_pc := Returned\<rparr>"
      by (auto split: if_splits)
    from count_update_drop [OF i(2,3), of Cancelled] one show ?thesis
      by (simp add: s' armed_count_def)
  qed
  from cancelled_steps [OF st c(2) assms(3)] zero show ?thesis
    by (simp add: pending_def split: if_splits)
qed

text \<open>
  C9 at a schedule the code admits. The first Timer expires and the target runs; the
  reschedule passes the stop check; \<open>cancel\<close> then runs from start to end (the flag is
  set, the Timer in \<open>_timer\<close> has already expired, so cancelling it does nothing); the
  reschedule arms a new Timer all the same, and that Timer expires and calls the target
  again, after \<open>cancel\<close> has returned.
\<close>

theorem cancel_between_check_and_arm_fires_again:
  "steps arc_timer_init [Expire 0, Target_returns, Check_stop, Set_stop, Cancel_timer]
     = Some \<lparr>stop = True, timer = Some 0, timers = [Fired], firings = 1,
             run_pc = At_arm, cancel_pc = Returned\<rparr>
   \<and> steps \<lparr>stop = True, timer = Some 0, timers = [Fired], firings = 1,
             run_pc = At_arm, cancel_pc = Returned\<rparr> [Arm, Expire 1]
     = Some \<lparr>stop = True, timer = Some 1, timers = [Fired, Fired], firings = 2,
             run_pc = In_target, cancel_pc = Returned\<rparr>"
  by (simp add: arc_timer_init_def)

text \<open>
  For comparison, \<open>cancel\<close> while the target is running: the reschedule that follows
  finds the flag set, no Timer is armed, and no step that calls the target is enabled.
\<close>

lemma cancel_during_target_stops:
  "steps arc_timer_init [Expire 0, Set_stop, Cancel_timer, Target_returns, Check_stop]
     = Some \<lparr>stop = True, timer = Some 0, timers = [Fired], firings = 1,
             run_pc = Idle, cancel_pc = Returned\<rparr>
   \<and> step \<lparr>stop = True, timer = Some 0, timers = [Fired], firings = 1,
             run_pc = Idle, cancel_pc = Returned\<rparr> (Expire 0) = None
   \<and> step \<lparr>stop = True, timer = Some 0, timers = [Fired], firings = 1,
             run_pc = Idle, cancel_pc = Returned\<rparr> Arm = None"
  by (simp add: arc_timer_init_def)

end
